theory Spec2Isabelle
  imports Main
begin

text \<open>
  The shift-assignment controller: the batch creation of assignments with its conflict
  detection, the update of one assignment, the status toggle and the soft delete. Each
  handler is a function from the request and the store to the response and the new store.
  The store is the two tables the handlers touch. The listing handlers only read and are
  left out, as are the \<open>createdAt\<close> column, which no handler of this file sets or tests, the
  text of the success messages, and failures of the database itself.
\<close>

section \<open>Identifiers as the request carries them\<close>

text \<open>
  The controller receives identifiers as JSON values and converts them twice: with
  \<^verbatim>\<open>BigInt(id)\<close> for the queries and the insert, and with \<^verbatim>\<open>id.toString()\<close> for the
  membership test against the blocked set. A request identifier is therefore kept as the
  string the handler sees. A JSON number \<open>n\<close> (a safe integer) is represented by its
  decimal rendering, on which both conversions agree with the ones on the number itself; a falsy
  value (absent, null, 0, the empty string) is represented by the empty string where the
  source tests the field with \<^verbatim>\<open>!x\<close>. Characters are the code units below 256.
\<close>

definition is_ws :: "char \<Rightarrow> bool" where
  "is_ws c \<longleftrightarrow> of_char c \<in> {9, 10, 11, 12, 13, 32, 160 :: nat}"

definition trim :: "string \<Rightarrow> string" where
  "trim s = rev (dropWhile is_ws (rev (dropWhile is_ws s)))"

definition digit_of :: "char \<Rightarrow> nat option" where
  "digit_of c =
     (let k = (of_char c :: nat) in
      if 48 \<le> k \<and> k \<le> 57 then Some (k - 48)
      else if 97 \<le> k \<and> k \<le> 122 then Some (k - 87)
      else if 65 \<le> k \<and> k \<le> 90 then Some (k - 55)
      else None)"

fun parse_digits :: "nat \<Rightarrow> string \<Rightarrow> nat \<Rightarrow> nat option" where
  "parse_digits r [] acc = Some acc"
| "parse_digits r (c # cs) acc =
     (case digit_of c of
        None \<Rightarrow> None
      | Some d \<Rightarrow> if d < r then parse_digits r cs (acc * r + d) else None)"

definition parse_nat :: "nat \<Rightarrow> string \<Rightarrow> nat option" where
  "parse_nat r s = (if s = [] then None else parse_digits r s 0)"

text \<open>
  \<^verbatim>\<open>BigInt(s)\<close> on a string (StringToBigInt): surrounding white space is dropped, the empty
  text is 0, a decimal literal may carry a sign, a literal with a prefix \<^verbatim>\<open>0x\<close>, \<^verbatim>\<open>0o\<close>
  or \<^verbatim>\<open>0b\<close> may not. \<open>None\<close> is the SyntaxError that the handler's \<^verbatim>\<open>catch\<close> turns
  into a 500 response.
\<close>

definition BigInt :: "string \<Rightarrow> int option" where
  "BigInt s =
     (let t = trim s; p = take 2 t; r = drop 2 t in
      if t = [] then Some 0
      else if p = ''0x'' \<or> p = ''0X'' then map_option int (parse_nat 16 r)
      else if p = ''0o'' \<or> p = ''0O'' then map_option int (parse_nat 8 r)
      else if p = ''0b'' \<or> p = ''0B'' then map_option int (parse_nat 2 r)
      else if take 1 t = ''+'' then map_option int (parse_nat 10 (drop 1 t))
      else if take 1 t = ''-'' then map_option (\<lambda>n. - int n) (parse_nat 10 (drop 1 t))
      else map_option int (parse_nat 10 t))"

fun digits10 :: "nat \<Rightarrow> string" where
  "digits10 n =
     (if n < 10 then [char_of (48 + n)]
      else digits10 (n div 10) @ [char_of (48 + n mod 10)])"

declare digits10.simps [simp del]

text \<open>\<^verbatim>\<open>toString()\<close> of a BigInt: the decimal digits, with a minus sign below zero.\<close>

definition toString :: "int \<Rightarrow> string" where
  "toString n = (if n < 0 then CHR ''-'' # digits10 (nat (- n)) else digits10 (nat n))"

section \<open>The store\<close>

text \<open>
  A date is the time value of a JavaScript \<^verbatim>\<open>Date\<close>, in milliseconds since the epoch;
  \<^verbatim>\<open>new Date("9999-12-31")\<close> is the constant \<open>far_future\<close>. Request dates are taken after
  parsing, \<open>None\<close> standing for a falsy field.
\<close>

type_synonym date = int

definition far_future :: date where
  "far_future = 253402214400000"

record assignment =
  assignment_id :: int
  shiftId :: int
  user_id :: int
  startDate :: date
  endDate :: "date option"
  role_id :: int
  assignment_notes :: "string option"
  status :: string
  deleted_at :: "date option"

record shifts_row =
  shift_id :: int
  shift_company_id :: int
  shift_deleted_at :: "date option"

record db =
  shifts :: "shifts_row list"
  shift_assignments :: "assignment list"
  next_id :: int

text \<open>
  The range condition shared by the two overlap queries (\<^verbatim>\<open>OR: [{AND: [...]}, {AND: [...]}]\<close>).
  A comparison filter on a nullable column (\<^verbatim>\<open>endDate: {gte: parsedStart}\<close>) never matches a
  row whose column is null.
\<close>

definition range_where :: "date \<times> date option \<Rightarrow> date \<times> date option \<Rightarrow> bool" where
  "range_where candidate existing \<longleftrightarrow>
     (fst existing \<le> (case snd candidate of Some e \<Rightarrow> e | None \<Rightarrow> far_future)
        \<and> (case snd existing of Some e \<Rightarrow> fst candidate \<le> e | None \<Rightarrow> False))
     \<or> (fst existing \<le> fst candidate \<and> snd existing = None)"

definition range_of :: "assignment \<Rightarrow> date \<times> date option" where
  "range_of a = (startDate a, endDate a)"

definition overlap_where :: "date \<Rightarrow> date option \<Rightarrow> assignment \<Rightarrow> bool" where
  "overlap_where parsedStart parsedEnd a \<longleftrightarrow>
     range_where (parsedStart, parsedEnd) (range_of a)"

text \<open>
  The overlap of two ranges in the words of the specification: \<open>A\<close> and \<open>B\<close> overlap iff
  \<open>A.start \<le> (B.end or +\<infinity>)\<close> and \<open>(A.end or +\<infinity>) \<ge> B.start\<close>.
\<close>

definition spec_overlaps :: "date \<times> date option \<Rightarrow> date \<times> date option \<Rightarrow> bool" where
  "spec_overlaps A B \<longleftrightarrow>
     (case snd B of None \<Rightarrow> True | Some e \<Rightarrow> fst A \<le> e)
     \<and> (case snd A of None \<Rightarrow> True | Some e \<Rightarrow> fst B \<le> e)"

definition valid_range :: "date \<times> date option \<Rightarrow> bool" where
  "valid_range A \<longleftrightarrow> (case snd A of None \<Rightarrow> True | Some e \<Rightarrow> fst A \<le> e)"

text \<open>\<^verbatim>\<open>prisma.shifts.findFirst\<close> with the handler's \<^verbatim>\<open>where\<close> clause.\<close>

definition findShift :: "db \<Rightarrow> int \<Rightarrow> int \<Rightarrow> shifts_row option" where
  "findShift s sid cid =
     find (\<lambda>sh. shift_id sh = sid \<and> shift_company_id sh = cid \<and> shift_deleted_at sh = None)
       (shifts s)"

text \<open>The two \<^verbatim>\<open>findMany\<close> queries of the conflict detector, in table order.\<close>

definition existingSameShift :: "db \<Rightarrow> int \<Rightarrow> int list \<Rightarrow> assignment list" where
  "existingSameShift s sid userBigInts =
     filter (\<lambda>a. shiftId a = sid \<and> user_id a \<in> set userBigInts
                  \<and> status a = ''active'' \<and> deleted_at a = None)
       (shift_assignments s)"

definition overlappingAssignments ::
  "db \<Rightarrow> int list \<Rightarrow> date \<Rightarrow> date option \<Rightarrow> assignment list" where
  "overlappingAssignments s userBigInts parsedStart parsedEnd =
     filter (\<lambda>a. user_id a \<in> set userBigInts \<and> status a = ''active'' \<and> deleted_at a = None
                  \<and> overlap_where parsedStart parsedEnd a)
       (shift_assignments s)"

text \<open>
  \<^verbatim>\<open>createMany\<close>: the rows are appended, the database numbers them from its counter and
  leaves \<open>deleted_at\<close> null; the returned count is the number of rows.
\<close>

definition createMany :: "db \<Rightarrow> assignment list \<Rightarrow> nat \<times> db" where
  "createMany s rows =
     (let new = map (\<lambda>(k, r). r\<lparr>assignment_id := next_id s + int k\<rparr>) (enumerate 0 rows)
      in (length new,
          s\<lparr>shift_assignments := shift_assignments s @ new,
            next_id := next_id s + int (length new)\<rparr>))"

section \<open>Requests and responses\<close>

record create_body =
  body_shiftId :: string
  body_user_ids :: "string list option"
  body_company_id :: string
  body_startDate :: "date option"
  body_endDate :: "date option"
  body_role_id :: "int option"
  body_notes :: "string option"

text \<open>
  What the handlers send: an error with its HTTP status and message, the error of a fully
  blocked batch with its two lists, the 201 data of a batch, the updated row, or the bare
  success of a delete.
\<close>

datatype response =
    Err nat string
  | ErrBlocked string "string list" "string list"
  | Created nat nat "string list" "string list"
  | Updated assignment
  | Deleted

definition msg_missing :: string where
  "msg_missing = ''Missing required fields: shiftId, company_id, startDate, role_id, and non-empty user_ids array.''"

definition msg_end_before_start :: string where
  "msg_end_before_start = ''endDate cannot be before startDate.''"

definition msg_shift_not_found :: string where
  "msg_shift_not_found = ''Shift not found for this company.''"

definition msg_all_blocked :: string where
  "msg_all_blocked = ''All selected users either already have this shift or have overlapping active shifts.''"

definition msg_internal :: string where
  "msg_internal = ''Internal Server Error''"

section \<open>The batch planner\<close>

definition end_before_start :: "date option \<Rightarrow> date \<Rightarrow> bool" where
  "end_before_start parsedEnd parsedStart =
     (case parsedEnd of None \<Rightarrow> False | Some e \<Rightarrow> e < parsedStart)"

text \<open>The object built for one user in \<^verbatim>\<open>assignmentsToCreate\<close>; the database sets the id.\<close>

definition assignment_data ::
  "int \<Rightarrow> date \<Rightarrow> date option \<Rightarrow> int \<Rightarrow> string option \<Rightarrow> int \<Rightarrow> assignment" where
  "assignment_data sid parsedStart parsedEnd role notes_in u =
     \<lparr>assignment_id = 0, shiftId = sid, user_id = u, startDate = parsedStart,
      endDate = parsedEnd, role_id = role,
      assignment_notes = (if notes_in = Some [] then None else notes_in),
      status = ''active'', deleted_at = None\<rparr>"

definition assignmentsToCreate ::
  "int \<Rightarrow> date \<Rightarrow> date option \<Rightarrow> int \<Rightarrow> string option \<Rightarrow> string list
     \<Rightarrow> assignment list option" where
  "assignmentsToCreate sid parsedStart parsedEnd role notes_in toAssign =
     those (map (\<lambda>userId.
         map_option (assignment_data sid parsedStart parsedEnd role notes_in) (BigInt userId))
       toAssign)"

definition duplicateUserIds :: "db \<Rightarrow> int \<Rightarrow> int list \<Rightarrow> string list" where
  "duplicateUserIds s sid userBigInts =
     map (\<lambda>a. toString (user_id a)) (existingSameShift s sid userBigInts)"

definition overlappingUserIds :: "db \<Rightarrow> int list \<Rightarrow> date \<Rightarrow> date option \<Rightarrow> string list" where
  "overlappingUserIds s userBigInts parsedStart parsedEnd =
     map (\<lambda>a. toString (user_id a)) (overlappingAssignments s userBigInts parsedStart parsedEnd)"

text \<open>The blocked set and the filter of the request's own list against it.\<close>

definition usersToAssign :: "string list \<Rightarrow> string list \<Rightarrow> string list \<Rightarrow> string list" where
  "usersToAssign dups ovl user_ids =
     (let blockedUserIds = set (dups @ ovl)
      in filter (\<lambda>id. id \<notin> blockedUserIds) user_ids)"

definition createShiftAssignments :: "create_body \<Rightarrow> db \<Rightarrow> response \<times> db" where
  "createShiftAssignments body s =
     (case (body_startDate body, body_role_id body, body_user_ids body) of
        (Some parsedStart, Some role, Some user_ids) \<Rightarrow>
          if body_shiftId body = [] \<or> body_company_id body = [] \<or> role = 0 \<or> user_ids = []
          then (Err 400 msg_missing, s)
          else if end_before_start (body_endDate body) parsedStart
          then (Err 400 msg_end_before_start, s)
          else
            (case (BigInt (body_shiftId body), BigInt (body_company_id body)) of
               (Some sid, Some cid) \<Rightarrow>
                 (case findShift s sid cid of
                    None \<Rightarrow> (Err 404 msg_shift_not_found, s)
                  | Some shift \<Rightarrow>
                      (case those (map BigInt user_ids) of
                         None \<Rightarrow> (Err 500 msg_internal, s)
                       | Some userBigInts \<Rightarrow>
                           let dups = duplicateUserIds s sid userBigInts;
                               ovl = overlappingUserIds s userBigInts parsedStart
                                       (body_endDate body);
                               toAssign = usersToAssign dups ovl user_ids
                           in if toAssign = []
                              then (ErrBlocked msg_all_blocked dups ovl, s)
                              else
                                (case assignmentsToCreate sid parsedStart (body_endDate body)
                                        role (body_notes body) toAssign of
                                   None \<Rightarrow> (Err 500 msg_internal, s)
                                 | Some rows \<Rightarrow>
                                     let (count, s') = createMany s rows;
                                         skippedCount = length user_ids - length toAssign
                                     in (Created count skippedCount dups ovl, s'))))
             | _ \<Rightarrow> (Err 500 msg_internal, s))
      | _ \<Rightarrow> (Err 400 msg_missing, s))"

text \<open>The field \<^verbatim>\<open>data.created\<close> of a response body, where it has one.\<close>

definition data_created :: "response \<Rightarrow> nat option" where
  "data_created r = (case r of Created count skipped dups ovl \<Rightarrow> Some count | _ \<Rightarrow> None)"

section \<open>The mutator, the status toggle and the soft delete\<close>

text \<open>
  The route parameter is taken after the guard \<^verbatim>\<open>!id || isNaN(id)\<close>: \<open>None\<close> is a
  parameter the guard rejects, \<open>Some i\<close> one that \<^verbatim>\<open>BigInt(id)\<close> reads as \<open>i\<close>.
  \<^verbatim>\<open>update\<close> addresses the row by its primary key and returns the row it wrote.
\<close>

record update_body =
  upd_startDate :: "date option"
  upd_endDate :: "date option"
  upd_status :: "string option"
  upd_notes :: "string option"
  upd_role_id :: "int option"

definition msg_invalid_id :: string where
  "msg_invalid_id = ''Invalid shift assignment ID.''"

definition msg_assignment_not_found :: string where
  "msg_assignment_not_found = ''Shift assignment not found.''"

definition msg_overlapping :: string where
  "msg_overlapping = ''User already has an overlapping active shift.''"

definition findAssignment :: "db \<Rightarrow> int \<Rightarrow> assignment option" where
  "findAssignment s i =
     find (\<lambda>a. assignment_id a = i \<and> deleted_at a = None) (shift_assignments s)"

definition update_row :: "db \<Rightarrow> int \<Rightarrow> (assignment \<Rightarrow> assignment) \<Rightarrow> db" where
  "update_row s i f =
     s\<lparr>shift_assignments :=
         map (\<lambda>a. if assignment_id a = i then f a else a) (shift_assignments s)\<rparr>"

definition findOverlapping ::
  "db \<Rightarrow> int \<Rightarrow> int \<Rightarrow> date \<Rightarrow> date option \<Rightarrow> assignment option" where
  "findOverlapping s i uid parsedStart parsedEnd =
     find (\<lambda>a. assignment_id a \<noteq> i \<and> user_id a = uid \<and> status a = ''active''
                \<and> deleted_at a = None \<and> overlap_where parsedStart parsedEnd a)
       (shift_assignments s)"

definition update_data ::
  "update_body \<Rightarrow> date \<Rightarrow> date option \<Rightarrow> assignment \<Rightarrow> assignment \<Rightarrow> assignment" where
  "update_data body parsedStart parsedEnd assignment a =
     a\<lparr>startDate := parsedStart,
       endDate := parsedEnd,
       status := (case upd_status body of None \<Rightarrow> status assignment | Some v \<Rightarrow> v),
       assignment_notes :=
         (case upd_notes body of None \<Rightarrow> assignment_notes assignment | Some v \<Rightarrow> Some v),
       role_id := (case upd_role_id body of None \<Rightarrow> role_id assignment | Some v \<Rightarrow> v)\<rparr>"

text \<open>
  The dates the update works with: the request's where it carries one, the stored one
  otherwise (\<^verbatim>\<open>startDate ? new Date(startDate) : assignment.startDate\<close>).
\<close>

definition resulting_start :: "update_body \<Rightarrow> assignment \<Rightarrow> date" where
  "resulting_start body assignment =
     (case upd_startDate body of None \<Rightarrow> startDate assignment | Some d \<Rightarrow> d)"

definition resulting_end :: "update_body \<Rightarrow> assignment \<Rightarrow> date option" where
  "resulting_end body assignment =
     (case upd_endDate body of None \<Rightarrow> endDate assignment | Some d \<Rightarrow> Some d)"

definition updateShiftAssignment ::
  "int option \<Rightarrow> update_body \<Rightarrow> db \<Rightarrow> response \<times> db" where
  "updateShiftAssignment idp body s =
     (case idp of
        None \<Rightarrow> (Err 400 msg_invalid_id, s)
      | Some i \<Rightarrow>
          (case findAssignment s i of
             None \<Rightarrow> (Err 404 msg_assignment_not_found, s)
           | Some assignment \<Rightarrow>
               let parsedStart = resulting_start body assignment;
                   parsedEnd = resulting_end body assignment
               in if end_before_start parsedEnd parsedStart
                  then (Err 400 msg_end_before_start, s)
                  else
                    (case findOverlapping s i (user_id assignment) parsedStart parsedEnd of
                       Some overlapping \<Rightarrow> (Err 400 msg_overlapping, s)
                     | None \<Rightarrow>
                         (Updated (update_data body parsedStart parsedEnd assignment assignment),
                          update_row s i
                            (update_data body parsedStart parsedEnd assignment)))))"

definition toggleShiftAssignmentStatus :: "int option \<Rightarrow> db \<Rightarrow> response \<times> db" where
  "toggleShiftAssignmentStatus idp s =
     (case idp of
        None \<Rightarrow> (Err 400 msg_invalid_id, s)
      | Some i \<Rightarrow>
          (case findAssignment s i of
             None \<Rightarrow> (Err 404 msg_assignment_not_found, s)
           | Some assignment \<Rightarrow>
               let newStatus =
                     (if status assignment = ''active'' then ''inactive'' else ''active'')
               in (Updated (assignment\<lparr>status := newStatus\<rparr>),
                   update_row s i (\<lambda>a. a\<lparr>status := newStatus\<rparr>))))"

text \<open>
  The write of the soft delete (\<^verbatim>\<open>data: {deleted_at: new Date(), status: "inactive"}\<close>);
  \<open>now\<close> is the value of \<^verbatim>\<open>new Date()\<close> at that time.
\<close>

definition soft_delete_row :: "date \<Rightarrow> int \<Rightarrow> db \<Rightarrow> db" where
  "soft_delete_row now i s =
     update_row s i (\<lambda>a. a\<lparr>deleted_at := Some now, status := ''inactive''\<rparr>)"

definition deleteShiftAssignment :: "date \<Rightarrow> int option \<Rightarrow> db \<Rightarrow> response \<times> db" where
  "deleteShiftAssignment now idp s =
     (case idp of
        None \<Rightarrow> (Err 400 msg_invalid_id, s)
      | Some i \<Rightarrow>
          (case findAssignment s i of
             None \<Rightarrow> (Err 404 msg_assignment_not_found, s)
           | Some assignment \<Rightarrow> (Deleted, soft_delete_row now i s)))"

section \<open>Notions of the specification\<close>

text \<open>
  An active assignment has status active and is not soft-deleted. A worker is a duplicate
  when an active assignment of theirs is on the requested shift, and is reported as
  overlapping when an active assignment of theirs satisfies the range condition of the
  query. \<open>spec_blocked\<close> is the blocking of the specification: a duplicate, or an active
  assignment that overlaps the candidate range in the specification's sense.
\<close>

definition is_active :: "assignment \<Rightarrow> bool" where
  "is_active a \<longleftrightarrow> status a = ''active'' \<and> deleted_at a = None"

definition duplicate_on_shift :: "db \<Rightarrow> int \<Rightarrow> int \<Rightarrow> bool" where
  "duplicate_on_shift s sid n \<longleftrightarrow>
     (\<exists>a \<in> set (shift_assignments s). user_id a = n \<and> shiftId a = sid \<and> is_active a)"

definition reported_overlapping :: "db \<Rightarrow> date \<Rightarrow> date option \<Rightarrow> int \<Rightarrow> bool" where
  "reported_overlapping s parsedStart parsedEnd n \<longleftrightarrow>
     (\<exists>a \<in> set (shift_assignments s).
        user_id a = n \<and> is_active a \<and> overlap_where parsedStart parsedEnd a)"

definition reported :: "db \<Rightarrow> int \<Rightarrow> date \<Rightarrow> date option \<Rightarrow> int \<Rightarrow> bool" where
  "reported s sid parsedStart parsedEnd n \<longleftrightarrow>
     duplicate_on_shift s sid n \<or> reported_overlapping s parsedStart parsedEnd n"

definition spec_blocked :: "db \<Rightarrow> int \<Rightarrow> date \<Rightarrow> date option \<Rightarrow> int \<Rightarrow> bool" where
  "spec_blocked s sid parsedStart parsedEnd n \<longleftrightarrow>
     (\<exists>a \<in> set (shift_assignments s).
        user_id a = n \<and> is_active a
        \<and> (shiftId a = sid \<or> spec_overlaps (parsedStart, parsedEnd) (range_of a)))"

text \<open>
  A request that passes the validation and the shift lookup of the planner and whose
  identifiers are all read by \<^verbatim>\<open>BigInt\<close>: \<open>sid\<close>, \<open>parsedStart\<close>, \<open>role\<close> and
  \<open>userBigInts\<close> are the values the handler works with.
\<close>

definition request_ok ::
  "create_body \<Rightarrow> db \<Rightarrow> int \<Rightarrow> date \<Rightarrow> int \<Rightarrow> int list \<Rightarrow> bool" where
  "request_ok body s sid parsedStart role userBigInts \<longleftrightarrow>
     body_startDate body = Some parsedStart
     \<and> body_role_id body = Some role \<and> role \<noteq> 0
     \<and> body_shiftId body \<noteq> [] \<and> body_company_id body \<noteq> []
     \<and> \<not> end_before_start (body_endDate body) parsedStart
     \<and> BigInt (body_shiftId body) = Some sid
     \<and> (case BigInt (body_company_id body) of
           None \<Rightarrow> False | Some cid \<Rightarrow> findShift s sid cid \<noteq> None)
     \<and> (case body_user_ids body of
           None \<Rightarrow> False
         | Some user_ids \<Rightarrow> user_ids \<noteq> [] \<and> map BigInt user_ids = map Some userBigInts)"

text \<open>The rows a batch appends for the workers \<open>ns\<close>, numbered by the database.\<close>

definition created_rows ::
  "db \<Rightarrow> int \<Rightarrow> date \<Rightarrow> date option \<Rightarrow> int \<Rightarrow> string option \<Rightarrow> int list \<Rightarrow> assignment list" where
  "created_rows s sid parsedStart parsedEnd role notes_in ns =
     map (\<lambda>(k, n). (assignment_data sid parsedStart parsedEnd role notes_in n)
                      \<lparr>assignment_id := next_id s + int k\<rparr>)
       (enumerate 0 ns)"

section \<open>Sample stores and requests\<close>

text \<open>
  Worker 7 holds one active assignment on shift 1, from day 10 on and with no end date.
  Shifts 1 and 2 belong to company 1.
\<close>

definition row_open :: assignment where
  "row_open =
     \<lparr>assignment_id = 1, shiftId = 1, user_id = 7, startDate = 10, endDate = None,
      role_id = 5, assignment_notes = None, status = ''active'', deleted_at = None\<rparr>"

definition two_shifts :: "shifts_row list" where
  "two_shifts =
     [\<lparr>shift_id = 1, shift_company_id = 1, shift_deleted_at = None\<rparr>,
      \<lparr>shift_id = 2, shift_company_id = 1, shift_deleted_at = None\<rparr>]"

definition db_open :: db where
  "db_open = \<lparr>shifts = two_shifts, shift_assignments = [row_open], next_id = 2\<rparr>"

definition batch :: "string \<Rightarrow> string list \<Rightarrow> date \<Rightarrow> date option \<Rightarrow> create_body" where
  "batch sid ids start end_opt =
     \<lparr>body_shiftId = sid, body_user_ids = Some ids, body_company_id = ''1'',
      body_startDate = Some start, body_endDate = end_opt, body_role_id = Some 5,
      body_notes = None\<rparr>"

text \<open>
  Worker 7 also holds an active assignment on shift 2 from day 1 to day 3. An update
  request that sets only the dates.
\<close>

definition row_short :: assignment where
  "row_short =
     \<lparr>assignment_id = 2, shiftId = 2, user_id = 7, startDate = 1, endDate = Some 3,
      role_id = 5, assignment_notes = None, status = ''active'', deleted_at = None\<rparr>"

definition db_two :: db where
  "db_two = \<lparr>shifts = two_shifts, shift_assignments = [row_open, row_short], next_id = 3\<rparr>"

definition reschedule :: "date option \<Rightarrow> date option \<Rightarrow> update_body" where
  "reschedule start_opt end_opt =
     \<lparr>upd_startDate = start_opt, upd_endDate = end_opt, upd_status = None,
      upd_notes = None, upd_role_id = None\<rparr>"

text \<open>The store as it would be had the rows with id \<open>i\<close> never been there.\<close>

definition without :: "int \<Rightarrow> db \<Rightarrow> db" where
  "without i s =
     s\<lparr>shift_assignments := filter (\<lambda>b. assignment_id b \<noteq> i) (shift_assignments s)\<rparr>"

section \<open>Decimal rendering and parsing\<close>

text \<open>
  \<^verbatim>\<open>BigInt\<close> reads back what \<^verbatim>\<open>toString\<close> writes, so the rendering of the
  stored identifiers is injective.
\<close>

lemma of_char_digit: "d < 10 \<Longrightarrow> (of_char (char_of (48 + d)) :: nat) = 48 + d"
  by (simp add: of_char_of)

lemma digit_of_char_of: "d < 10 \<Longrightarrow> digit_of (char_of (48 + d)) = Some d"
  by (simp add: digit_of_def of_char_digit)

lemma parse_digits_append:
  "parse_digits r (xs @ ys) acc =
     (case parse_digits r xs acc of None \<Rightarrow> None | Some a \<Rightarrow> parse_digits r ys a)"
  by (induction xs arbitrary: acc) (auto split: option.splits)

lemma parse_digits_digits10: "parse_digits 10 (digits10 n) 0 = Some n"
proof (induction n rule: digits10.induct)
  case (1 n)
  show ?case
  proof (cases "n < 10")
    case True
    then show ?thesis
      by (subst digits10.simps) (simp add: digit_of_char_of)
  next
    case False
    have "n mod 10 < 10" by simp
    with False 1 show ?thesis
      by (subst digits10.simps) (simp add: parse_digits_append digit_of_char_of)
  qed
qed

lemma digits10_nonempty: "digits10 n \<noteq> []"
  by (subst digits10.simps) simp

lemma digits10_chars:
  "c \<in> set (digits10 n) \<Longrightarrow> 48 \<le> (of_char c :: nat) \<and> (of_char c :: nat) \<le> 57"
proof (induction n rule: digits10.induct)
  case (1 n)
  show ?case
  proof (cases "n < 10")
    case True
    with 1(2) have "c = char_of (48 + n)"
      by (subst (asm) digits10.simps) simp
    with True show ?thesis by (simp add: of_char_digit)
  next
    case False
    with 1(2) have "c \<in> set (digits10 (n div 10)) \<or> c = char_of (48 + n mod 10)"
      by (subst (asm) digits10.simps) auto
    then show ?thesis
    proof
      assume "c \<in> set (digits10 (n div 10))"
      with 1(1) False show ?thesis by simp
    next
      assume c: "c = char_of (48 + n mod 10)"
      have "n mod 10 < 10" by simp
      then show ?thesis unfolding c by (simp only: of_char_digit) simp
    qed
  qed
qed

lemma trim_id: "s \<noteq> [] \<Longrightarrow> \<not> is_ws (hd s) \<Longrightarrow> \<not> is_ws (last s) \<Longrightarrow> trim s = s"
proof -
  assume s: "s \<noteq> []" and h: "\<not> is_ws (hd s)" and l: "\<not> is_ws (last s)"
  from s h have 1: "dropWhile is_ws s = s" by (cases s) auto
  from s l have 2: "dropWhile is_ws (rev s) = rev s"
    by (cases "rev s") (auto simp: last_rev hd_rev)
  show ?thesis by (simp add: trim_def 1 2)
qed


lemma toString_chars:
  "c \<in> set (toString m) \<Longrightarrow> c = CHR ''-'' \<or> (48 \<le> (of_char c :: nat) \<and> (of_char c :: nat) \<le> 57)"
  by (auto simp: toString_def dest: digits10_chars split: if_splits)

lemma toString_no_prefix:
  assumes "q \<noteq> CHR ''-''" and "\<not> (48 \<le> (of_char q :: nat) \<and> (of_char q :: nat) \<le> 57)"
  shows "take 2 (toString m) \<noteq> [p, q]"
proof
  assume "take 2 (toString m) = [p, q]"
  then have "q \<in> set (take 2 (toString m))" by simp
  then have "q \<in> set (toString m)" by (rule in_set_takeD)
  with assms show False by (auto dest: toString_chars)
qed

lemma digits10_hd: "48 \<le> (of_char (hd (digits10 n)) :: nat) \<and> (of_char (hd (digits10 n)) :: nat) \<le> 57"
  using digits10_chars [of "hd (digits10 n)" n] digits10_nonempty [of n] by simp

lemma digits10_last: "48 \<le> (of_char (last (digits10 n)) :: nat) \<and> (of_char (last (digits10 n)) :: nat) \<le> 57"
  using digits10_chars [of "last (digits10 n)" n] digits10_nonempty [of n] by simp

lemma trim_digits10: "trim (digits10 n) = digits10 n"
  using digits10_hd [of n] digits10_last [of n]
  by (intro trim_id) (auto simp: digits10_nonempty is_ws_def)

lemma trim_minus_digits10: "trim (CHR ''-'' # digits10 n) = CHR ''-'' # digits10 n"
  using digits10_last [of n]
  by (intro trim_id) (auto simp: digits10_nonempty is_ws_def)

lemma trim_toString: "trim (toString m) = toString m"
  by (simp add: toString_def trim_digits10 trim_minus_digits10)

lemma parse_nat_digits10: "parse_nat 10 (digits10 n) = Some n"
  by (simp add: parse_nat_def digits10_nonempty parse_digits_digits10)

lemma take1_digits10: "take 1 (digits10 n) \<noteq> ''+'' \<and> take 1 (digits10 n) \<noteq> ''-''"
proof -
  obtain c cs where cs: "digits10 n = c # cs"
    using digits10_nonempty [of n] by (cases "digits10 n") auto
  with digits10_hd [of n] show ?thesis by auto
qed


lemma BigInt_unfold:
  assumes "trim s = s" "s \<noteq> []"
    "take 2 s \<noteq> ''0x''" "take 2 s \<noteq> ''0X''" "take 2 s \<noteq> ''0o''" "take 2 s \<noteq> ''0O''"
    "take 2 s \<noteq> ''0b''" "take 2 s \<noteq> ''0B''" "take 1 s \<noteq> ''+''"
  shows "BigInt s = (if take 1 s = ''-'' then map_option (\<lambda>n. - int n) (parse_nat 10 (drop 1 s))
                     else map_option int (parse_nat 10 s))"
  unfolding BigInt_def Let_def assms(1) using assms(2-) by (simp only: if_False simp_thms)

lemma BigInt_toString: "BigInt (toString m) = Some m"
proof -
  have np: "take 2 (toString m) \<noteq> ''0x''" "take 2 (toString m) \<noteq> ''0X''"
    "take 2 (toString m) \<noteq> ''0o''" "take 2 (toString m) \<noteq> ''0O''"
    "take 2 (toString m) \<noteq> ''0b''" "take 2 (toString m) \<noteq> ''0B''"
    by (rule toString_no_prefix; simp)+
  have ne: "toString m \<noteq> []" by (simp add: toString_def digits10_nonempty)
  have plus: "take 1 (toString m) \<noteq> ''+''"
    using take1_digits10 [of "nat m"] by (simp add: toString_def)
  note u = BigInt_unfold [OF trim_toString ne np plus]
  show ?thesis
  proof (cases "m < 0")
    case True
    then have t: "toString m = CHR ''-'' # digits10 (nat (- m))" by (simp add: toString_def)
    have "take 1 (toString m) = ''-''" "drop 1 (toString m) = digits10 (nat (- m))"
      by (simp_all add: t)
    then have "BigInt (toString m) = map_option (\<lambda>n. - int n) (parse_nat 10 (digits10 (nat (- m))))"
      by (simp only: u refl if_True)
    with True show ?thesis
      by (simp only: parse_nat_digits10) simp
  next
    case False
    then have t: "toString m = digits10 (nat m)" by (simp add: toString_def)
    have "take 1 (toString m) \<noteq> ''-''"
      using take1_digits10 [of "nat m"] by (simp only: t) simp
    then have "BigInt (toString m) = map_option int (parse_nat 10 (toString m))"
      by (simp only: u if_False)
    with False show ?thesis
      by (simp only: t parse_nat_digits10) simp
  qed
qed

lemma toString_inj: "toString a = toString b \<Longrightarrow> a = b"
proof -
  assume "toString a = toString b"
  then have "BigInt (toString a) = BigInt (toString b)" by (rule arg_cong)
  then show "a = b" by (simp only: BigInt_toString option.inject)
qed

section \<open>The run of the batch planner\<close>

lemma those_eq_Some: "those xs = Some ys \<longleftrightarrow> xs = map Some ys"
  by (induction xs arbitrary: ys) (auto split: option.splits)

lemma those_map_Some: "those (map Some ys) = Some ys"
  by (simp add: those_eq_Some)

lemma assignmentsToCreate_filter:
  "map BigInt ids = map Some ubs \<Longrightarrow>
   assignmentsToCreate sid ps pe role nt (filter P ids) =
     Some (map (assignment_data sid ps pe role nt)
            (map snd (filter (\<lambda>p. P (fst p)) (zip ids ubs))))"
proof (induction ids arbitrary: ubs)
  case Nil
  then show ?case by (simp add: assignmentsToCreate_def)
next
  case (Cons i ids)
  then obtain u us where ubs: "ubs = u # us" and i: "BigInt i = Some u"
    and rest: "map BigInt ids = map Some us"
    by (cases ubs) auto
  from Cons.IH [OF rest] show ?case
    by (simp add: assignmentsToCreate_def ubs i)
qed

lemma number_rows_map:
  "map (\<lambda>(k, r). r\<lparr>assignment_id := b + int k\<rparr>) (enumerate i (map g ns)) =
   map (\<lambda>(k, n). (g n)\<lparr>assignment_id := b + int k\<rparr>) (enumerate i ns)"
  by (induction ns arbitrary: i) auto

lemma createMany_eq:
  "createMany s (map (assignment_data sid ps pe role nt) ns) =
     (length ns,
      s\<lparr>shift_assignments := shift_assignments s @ created_rows s sid ps pe role nt ns,
        next_id := next_id s + int (length ns)\<rparr>)"
  by (simp add: createMany_def created_rows_def Let_def number_rows_map)

text \<open>The run of the planner on a request that passes validation.\<close>

lemma create_run:
  assumes ok: "request_ok body s sid ps role ubs"
    and ids: "body_user_ids body = Some ids"
  shows "createShiftAssignments body s =
     (let dups = duplicateUserIds s sid ubs;
          ovl = overlappingUserIds s ubs ps (body_endDate body);
          ns = map snd (filter (\<lambda>p. fst p \<notin> set (dups @ ovl)) (zip ids ubs))
      in if usersToAssign dups ovl ids = []
         then (ErrBlocked msg_all_blocked dups ovl, s)
         else (Created (length ns) (length ids - length (usersToAssign dups ovl ids)) dups ovl,
               s\<lparr>shift_assignments :=
                    shift_assignments s @
                    created_rows s sid ps (body_endDate body) role (body_notes body) ns,
                  next_id := next_id s + int (length ns)\<rparr>))"
proof -
  from ok ids have m: "map BigInt ids = map Some ubs" and ne: "ids \<noteq> []"
    by (simp_all add: request_ok_def)
  then have th: "those (map BigInt ids) = Some ubs" by (simp add: those_eq_Some)
  from ok obtain cid sh where cid: "BigInt (body_company_id body) = Some cid"
    and sh: "findShift s sid cid = Some sh"
    by (auto simp: request_ok_def split: option.splits)
  have atc: "\<And>B. assignmentsToCreate sid ps (body_endDate body) role (body_notes body)
                 (filter (\<lambda>id. id \<notin> B) ids) =
       Some (map (assignment_data sid ps (body_endDate body) role (body_notes body))
              (map snd (filter (\<lambda>p. fst p \<notin> B) (zip ids ubs))))"
    by (rule assignmentsToCreate_filter [OF m])
  from ok ids ne show ?thesis
    unfolding createShiftAssignments_def
    by (simp add: request_ok_def cid sh th those_map_Some Let_def usersToAssign_def atc createMany_eq
        del: set_append map_map)
qed


lemma dup_mem:
  "n \<in> set ubs \<Longrightarrow>
   toString n \<in> set (duplicateUserIds s sid ubs) \<longleftrightarrow> duplicate_on_shift s sid n"
  by (auto simp: duplicateUserIds_def existingSameShift_def duplicate_on_shift_def is_active_def
      dest: toString_inj)

lemma ovl_mem:
  "n \<in> set ubs \<Longrightarrow>
   toString n \<in> set (overlappingUserIds s ubs ps pe) \<longleftrightarrow> reported_overlapping s ps pe n"
  by (auto simp: overlappingUserIds_def overlappingAssignments_def reported_overlapping_def
      is_active_def dest: toString_inj)

lemma blocked_mem:
  "n \<in> set ubs \<Longrightarrow>
   toString n \<in> set (duplicateUserIds s sid ubs @ overlappingUserIds s ubs ps pe)
     \<longleftrightarrow> reported s sid ps pe n"
  by (simp add: reported_def dup_mem ovl_mem)

lemma toString_eq_parsed: "BigInt w = Some n \<Longrightarrow> toString m = w \<Longrightarrow> m = n"
  using BigInt_toString [of m] by auto

lemma blocked_mem_parsed:
  assumes p: "BigInt w = Some n"
    and w: "w \<in> set (duplicateUserIds s sid ubs @ overlappingUserIds s ubs ps pe)"
  shows "reported s sid ps pe n"
proof -
  from w obtain a where a: "a \<in> set (shift_assignments s)" "toString (user_id a) = w"
    "is_active a" "shiftId a = sid \<or> overlap_where ps pe a"
    by (auto simp: duplicateUserIds_def existingSameShift_def overlappingUserIds_def
        overlappingAssignments_def is_active_def)
  from p a(2) have "user_id a = n" by (rule toString_eq_parsed)
  with a show ?thesis
    unfolding reported_def duplicate_on_shift_def reported_overlapping_def by blast
qed

lemma filter_zip_map:
  "map snd (filter (\<lambda>p. P (fst p)) (zip (map f xs) xs)) = filter (\<lambda>x. P (f x)) xs"
  by (induction xs) auto

lemma create_run_canonical:
  assumes ok: "request_ok body s sid ps role ubs"
    and ids: "body_user_ids body = Some (map toString ubs)"
  shows "createShiftAssignments body s =
     (let free = filter (\<lambda>n. \<not> reported s sid ps (body_endDate body) n) ubs
      in if free = []
         then (ErrBlocked msg_all_blocked (duplicateUserIds s sid ubs)
                 (overlappingUserIds s ubs ps (body_endDate body)), s)
         else (Created (length free)
                 (length (filter (reported s sid ps (body_endDate body)) ubs))
                 (duplicateUserIds s sid ubs)
                 (overlappingUserIds s ubs ps (body_endDate body)),
               s\<lparr>shift_assignments :=
                    shift_assignments s @
                    created_rows s sid ps (body_endDate body) role (body_notes body) free,
                  next_id := next_id s + int (length free)\<rparr>))"
proof -
  let ?B = "set (duplicateUserIds s sid ubs @ overlappingUserIds s ubs ps (body_endDate body))"
  let ?free = "filter (\<lambda>n. \<not> reported s sid ps (body_endDate body) n) ubs"
  have f: "filter (\<lambda>n. toString n \<notin> ?B) ubs = ?free"
    by (rule filter_cong [OF refl]) (simp only: blocked_mem)
  have ns: "map snd (filter (\<lambda>p. fst p \<notin> ?B) (zip (map toString ubs) ubs)) = ?free"
    by (simp only: filter_zip_map [where P = "\<lambda>i. i \<notin> ?B"] f)
  have uta: "usersToAssign (duplicateUserIds s sid ubs)
               (overlappingUserIds s ubs ps (body_endDate body)) (map toString ubs) =
             map toString ?free"
    unfolding usersToAssign_def Let_def filter_map comp_def by (simp only: f)
  have len: "length ubs - length ?free =
             length (filter (reported s sid ps (body_endDate body)) ubs)"
    using sum_length_filter_compl [of "reported s sid ps (body_endDate body)" ubs] by simp
  show ?thesis
    unfolding create_run [OF ok ids] Let_def ns uta
    by (simp only: length_map map_is_Nil_conv len)
qed

lemma dups_set:
  "set (duplicateUserIds s sid ubs) = toString ` {n \<in> set ubs. duplicate_on_shift s sid n}"
  by (auto simp: duplicateUserIds_def existingSameShift_def duplicate_on_shift_def is_active_def)

lemma ovl_set:
  "set (overlappingUserIds s ubs ps pe) =
     toString ` {n \<in> set ubs. reported_overlapping s ps pe n}"
  by (auto simp: overlappingUserIds_def overlappingAssignments_def reported_overlapping_def
      is_active_def)

lemma created_rows_user_ids: "map user_id (created_rows s sid ps pe role nt ns) = ns"
proof -
  have "\<And>i. map user_id (map (\<lambda>(k, n). (assignment_data sid ps pe role nt n)
            \<lparr>assignment_id := next_id s + int k\<rparr>) (enumerate i ns)) = ns"
    by (induction ns) (auto simp: assignment_data_def)
  then show ?thesis by (simp only: created_rows_def)
qed

lemma created_rows_active:
  "b \<in> set (created_rows s sid ps pe role nt ns) \<Longrightarrow>
   is_active b \<and> shiftId b = sid \<and> startDate b = ps \<and> endDate b = pe"
  by (auto simp: created_rows_def assignment_data_def is_active_def)

lemma length_filter_distinct:
  "distinct xs \<Longrightarrow> length (filter P xs) = card {x \<in> set xs. P x}"
  using distinct_card [of "filter P xs"] by simp

lemma range_where_sound:
  "valid_range A \<Longrightarrow> range_where A B \<Longrightarrow> spec_overlaps A B"
  by (auto simp: valid_range_def range_where_def spec_overlaps_def split: option.splits)

lemma range_where_bounded:
  "snd A = Some c \<Longrightarrow> snd B = Some e \<Longrightarrow> range_where A B = spec_overlaps A B"
  by (auto simp: range_where_def spec_overlaps_def)

lemma range_where_open_candidate:
  "snd A = None \<Longrightarrow> snd B = Some e \<Longrightarrow> fst B \<le> far_future \<Longrightarrow>
   range_where A B = spec_overlaps A B"
  by (auto simp: range_where_def spec_overlaps_def)

lemma overlap_where_sound:
  "\<not> end_before_start pe ps \<Longrightarrow> overlap_where ps pe a \<Longrightarrow>
   spec_overlaps (ps, pe) (range_of a)"
  by (rule range_where_sound)
    (auto simp: valid_range_def end_before_start_def overlap_where_def split: option.splits)

lemma reported_spec_blocked:
  "\<not> end_before_start pe ps \<Longrightarrow> reported s sid ps pe n \<Longrightarrow> spec_blocked s sid ps pe n"
  unfolding reported_def duplicate_on_shift_def reported_overlapping_def spec_blocked_def
  by (blast dest: overlap_where_sound)

lemma length_filter_count: "length (filter (\<lambda>a. f a = n) xs) = count_list (map f xs) n"
  by (induction xs) auto

lemma zip_parsed:
  "map BigInt ids = map Some ubs \<Longrightarrow> (w, u) \<in> set (zip ids ubs) \<Longrightarrow> BigInt w = Some u"
proof (induction ids arbitrary: ubs)
  case Nil
  then show ?case by simp
next
  case (Cons i ids)
  then show ?case by (cases ubs) auto
qed

section \<open>Rows addressed by their id\<close>

lemma find_map_preserved:
  "(\<And>x. P (g x) = P x) \<Longrightarrow> find P (map g xs) = map_option g (find P xs)"
  by (induction xs) auto

lemma findAssignment_update_row:
  assumes f: "\<And>b. assignment_id (f b) = assignment_id b" "\<And>b. deleted_at (f b) = deleted_at b"
    and found: "findAssignment s i = Some a"
  shows "findAssignment (update_row s i f) i = Some (f a)"
proof -
  let ?g = "\<lambda>b. if assignment_id b = i then f b else b"
  from found have ia: "assignment_id a = i"
    by (auto simp: findAssignment_def find_Some_iff)
  have "find (\<lambda>b. assignment_id b = i \<and> deleted_at b = None) (map ?g (shift_assignments s))
        = map_option ?g (find (\<lambda>b. assignment_id b = i \<and> deleted_at b = None)
            (shift_assignments s))"
    by (rule find_map_preserved) (simp add: f)
  with found ia show ?thesis by (simp add: findAssignment_def update_row_def)
qed

lemma findAssignment_props:
  "findAssignment s i = Some a \<Longrightarrow>
   a \<in> set (shift_assignments s) \<and> assignment_id a = i \<and> deleted_at a = None"
  by (auto simp: findAssignment_def find_Some_iff)

lemma unique_row:
  assumes "distinct (map assignment_id (shift_assignments s))"
    and "findAssignment s i = Some a" and "b \<in> set (shift_assignments s)"
    and "assignment_id b = i"
  shows "b = a"
proof -
  from assms(1) have "inj_on assignment_id (set (shift_assignments s))"
    by (simp add: distinct_map)
  moreover from assms(2) have "a \<in> set (shift_assignments s)" "assignment_id a = i"
    by (simp_all add: findAssignment_props)
  ultimately show ?thesis using assms(3,4) by (auto dest: inj_onD)
qed

lemma update_run:
  assumes found: "findAssignment s i = Some a"
  shows "updateShiftAssignment (Some i) body s =
     (if end_before_start (resulting_end body a) (resulting_start body a)
      then (Err 400 msg_end_before_start, s)
      else if findOverlapping s i (user_id a) (resulting_start body a) (resulting_end body a)
              \<noteq> None
      then (Err 400 msg_overlapping, s)
      else (Updated (update_data body (resulting_start body a) (resulting_end body a) a a),
            update_row s i
              (update_data body (resulting_start body a) (resulting_end body a) a)))"
  unfolding updateShiftAssignment_def Let_def
  by (simp add: found split: option.splits)

lemma update_data_fields:
  "(upd_startDate body = None \<longrightarrow>
      startDate (update_data body (resulting_start body a) pe a b) = startDate a)
   \<and> (upd_endDate body = None \<longrightarrow>
      endDate (update_data body ps (resulting_end body a) a b) = endDate a)
   \<and> (upd_status body = None \<longrightarrow> status (update_data body ps pe a b) = status a)
   \<and> (upd_notes body = None \<longrightarrow>
      assignment_notes (update_data body ps pe a b) = assignment_notes a)
   \<and> (upd_role_id body = None \<longrightarrow> role_id (update_data body ps pe a b) = role_id a)
   \<and> assignment_id (update_data body ps pe a b) = assignment_id b
   \<and> shiftId (update_data body ps pe a b) = shiftId b
   \<and> user_id (update_data body ps pe a b) = user_id b
   \<and> deleted_at (update_data body ps pe a b) = deleted_at b"
  by (simp add: update_data_def resulting_start_def resulting_end_def)

lemma toggle_run:
  assumes found: "findAssignment s i = Some a"
  shows "toggleShiftAssignmentStatus (Some i) s =
     (Updated (a\<lparr>status := (if status a = ''active'' then ''inactive'' else ''active'')\<rparr>),
      update_row s i
        (\<lambda>b. b\<lparr>status := (if status a = ''active'' then ''inactive'' else ''active'')\<rparr>))"
  by (simp add: toggleShiftAssignmentStatus_def found Let_def)

lemma update_row_other_rows:
  "filter (\<lambda>b. assignment_id b \<noteq> i) (shift_assignments (update_row s i f)) =
   filter (\<lambda>b. assignment_id b \<noteq> i) (shift_assignments s)"
  if "\<And>b. assignment_id (f b) = assignment_id b"
proof -
  have "filter (\<lambda>b. assignment_id b \<noteq> i)
          (map (\<lambda>b. if assignment_id b = i then f b else b) xs) =
        filter (\<lambda>b. assignment_id b \<noteq> i) xs" for xs
    by (induction xs) (auto simp: that)
  then show ?thesis by (simp add: update_row_def)
qed

section \<open>The overlap test of the conflict detector\<close>

text \<open>
  C1. The detector's overlap test is meant to agree with the range overlap of the
  specification. It does not: worker 7 holds an active assignment from day 10 on with no
  end date, the candidate range runs from day 5 to day 15, the two overlap in the sense of
  the specification, yet the overlap query returns no row and the planner assigns worker 7
  to shift 2 over that range.
\<close>

theorem detector_misses_open_ended_row:
  "spec_overlaps (5, Some 15) (range_of row_open)
   \<and> \<not> overlap_where 5 (Some 15) row_open
   \<and> overlappingAssignments db_open [7] 5 (Some 15) = []
   \<and> fst (createShiftAssignments (batch ''2'' [''7''] 5 (Some 15)) db_open) = Created 1 0 [] []"
  by code_simp

text \<open>
  C5. The overlap relation of the detector is meant to be symmetric. On the valid ranges
  \<open>[5, 15]\<close> and \<open>[10, \<infinity>)\<close> it is not: with the bounded range as the candidate the
  open-ended one is not matched, the other way round the bounded one is.
\<close>

theorem range_where_not_symmetric:
  "valid_range (5, Some 15) \<and> valid_range (10, None)
   \<and> \<not> range_where (5, Some 15) (10, None)
   \<and> range_where (10, None) (5, Some 15)"
  by (simp add: valid_range_def range_where_def far_future_def)

section \<open>Properties of the batch planner\<close>

text \<open>
  C2, as the code has it. Take a batch request that passes validation, whose worker ids are
  written in the decimal form that \<^verbatim>\<open>toString\<close> gives, and in which the detector reports some
  requested workers (as duplicates on the shift or as overlapping) and not all of them. The
  planner answers 201; it appends one active assignment on the shift, over the requested
  range, for every occurrence in the list of a worker that is not reported, in the order of
  the list; \<open>created\<close> is the number of these occurrences and \<open>skipped\<close> the number of
  occurrences of reported workers; the two lists of the result name exactly the requested
  workers that are duplicates and exactly those reported as overlapping. Where the list has
  no repetition the two counts are the numbers of workers. In particular, for the list
  \<open>[W1, W2]\<close> with one active assignment on the shift among them, that of \<open>W1\<close>, the result
  is \<open>created = 1\<close>, \<open>skipped = 1\<close> and \<open>duplicateUserIds = [W1]\<close>.
\<close>

theorem batch_partial_success:
  assumes ok: "request_ok body s sid ps role ubs"
    and ids: "body_user_ids body = Some (map toString ubs)"
    and some_blocked: "\<exists>n \<in> set ubs. reported s sid ps (body_endDate body) n"
    and some_free: "\<exists>n \<in> set ubs. \<not> reported s sid ps (body_endDate body) n"
  shows "createShiftAssignments body s =
       (Created (length (filter (\<lambda>n. \<not> reported s sid ps (body_endDate body) n) ubs))
          (length (filter (reported s sid ps (body_endDate body)) ubs))
          (duplicateUserIds s sid ubs)
          (overlappingUserIds s ubs ps (body_endDate body)),
        s\<lparr>shift_assignments :=
             shift_assignments s @
             created_rows s sid ps (body_endDate body) role (body_notes body)
               (filter (\<lambda>n. \<not> reported s sid ps (body_endDate body) n) ubs),
           next_id := next_id s
             + int (length (filter (\<lambda>n. \<not> reported s sid ps (body_endDate body) n) ubs))\<rparr>)
     \<and> map user_id (created_rows s sid ps (body_endDate body) role (body_notes body)
          (filter (\<lambda>n. \<not> reported s sid ps (body_endDate body) n) ubs))
        = filter (\<lambda>n. \<not> reported s sid ps (body_endDate body) n) ubs
     \<and> (\<forall>b \<in> set (created_rows s sid ps (body_endDate body) role (body_notes body)
                     (filter (\<lambda>n. \<not> reported s sid ps (body_endDate body) n) ubs)).
           is_active b \<and> shiftId b = sid \<and> startDate b = ps \<and> endDate b = body_endDate body)
     \<and> set (duplicateUserIds s sid ubs) = toString ` {n \<in> set ubs. duplicate_on_shift s sid n}
     \<and> set (overlappingUserIds s ubs ps (body_endDate body)) =
         toString ` {n \<in> set ubs. reported_overlapping s ps (body_endDate body) n}
     \<and> (distinct ubs \<longrightarrow>
          length (filter (\<lambda>n. \<not> reported s sid ps (body_endDate body) n) ubs) =
            card {n \<in> set ubs. \<not> reported s sid ps (body_endDate body) n}
          \<and> length (filter (reported s sid ps (body_endDate body)) ubs) =
            card {n \<in> set ubs. reported s sid ps (body_endDate body) n})
     \<and> (\<forall>w1 w2 a. ubs = [w1, w2] \<and> existingSameShift s sid ubs = [a] \<and> user_id a = w1 \<longrightarrow>
          fst (createShiftAssignments body s) =
            Created 1 1 [toString w1] (overlappingUserIds s ubs ps (body_endDate body)))"
proof -
  let ?free = "filter (\<lambda>n. \<not> reported s sid ps (body_endDate body) n) ubs"
  from some_free have ne: "?free \<noteq> []" by (simp add: filter_empty_conv)
  have run: "createShiftAssignments body s =
       (Created (length ?free) (length (filter (reported s sid ps (body_endDate body)) ubs))
          (duplicateUserIds s sid ubs) (overlappingUserIds s ubs ps (body_endDate body)),
        s\<lparr>shift_assignments :=
             shift_assignments s @
             created_rows s sid ps (body_endDate body) role (body_notes body) ?free,
           next_id := next_id s + int (length ?free)\<rparr>)"
    unfolding create_run_canonical [OF ok ids] Let_def using ne by (simp only: if_False)
  have ex: "fst (createShiftAssignments body s) =
            Created 1 1 [toString w1] (overlappingUserIds s ubs ps (body_endDate body))"
    if h: "ubs = [w1, w2]" "existingSameShift s sid ubs = [a]" "user_id a = w1" for w1 w2 a
  proof -
    have "a \<in> set (existingSameShift s sid ubs)" unfolding h(2) by simp
    then have "duplicate_on_shift s sid w1"
      using h(3) by (auto simp: existingSameShift_def duplicate_on_shift_def is_active_def)
    then have r1: "reported s sid ps (body_endDate body) w1" by (simp add: reported_def)
    with some_free h(1) have r2: "\<not> reported s sid ps (body_endDate body) w2" by auto
    have d: "duplicateUserIds s sid ubs = [toString w1]"
      unfolding duplicateUserIds_def h(2) by (simp add: h(3))
    show ?thesis
      unfolding run fst_conv d using r1 r2 by (simp add: h(1))
  qed
  show ?thesis
    using run created_rows_user_ids created_rows_active dups_set ovl_set
      length_filter_distinct ex
    by (intro conjI allI impI ballI; (elim conjE)?; blast?)
qed

text \<open>The request \<open>[7, 8]\<close> for shift 1, on which worker 7 is active already.\<close>

theorem batch_partial_success_witness:
  "request_ok (batch ''1'' [''7'', ''8''] 5 (Some 15)) db_open 1 5 5 [7, 8]
   \<and> body_user_ids (batch ''1'' [''7'', ''8''] 5 (Some 15)) = Some (map toString [7, 8])
   \<and> reported db_open 1 5 (Some 15) 7
   \<and> \<not> reported db_open 1 5 (Some 15) 8
   \<and> fst (createShiftAssignments (batch ''1'' [''7'', ''8''] 5 (Some 15)) db_open)
       = Created 1 1 [''7''] []"
proof -
  let ?body = "batch ''1'' [''7'', ''8''] 5 (Some 15)"
  have 1: "request_ok ?body db_open 1 5 5 [7, 8]" by code_simp
  have 2: "body_user_ids ?body = Some (map toString [7, 8])" by code_simp
  have 3: "\<exists>n \<in> set [7, 8]. reported db_open 1 5 (body_endDate ?body) n" by code_simp
  have 4: "\<exists>n \<in> set [7, 8]. \<not> reported db_open 1 5 (body_endDate ?body) n" by code_simp
  have 5: "existingSameShift db_open 1 [7, 8] = [row_open]" by code_simp
  have 6: "user_id row_open = 7" by code_simp
  have 7: "toString 7 = ''7''" by code_simp
  have 8: "overlappingUserIds db_open [7, 8] 5 (body_endDate ?body) = []" by code_simp
  have 9: "reported db_open 1 5 (Some 15) 7" "\<not> reported db_open 1 5 (Some 15) 8"
    by code_simp+
  from batch_partial_success [OF 1 2 3 4] 5 6
  have "fst (createShiftAssignments ?body db_open) =
          Created 1 1 [toString 7] (overlappingUserIds db_open [7, 8] 5 (body_endDate ?body))"
    by blast
  with 1 2 9 show ?thesis by (simp only: 7 8 simp_thms)
qed

text \<open>
  The claim counts workers. The planner counts occurrences: worker 8 is not blocked and is
  named twice in the request for shift 1, worker 7 is a duplicate; two assignments are
  created, both for worker 8.
\<close>

theorem batch_repeated_id_counterexample:
  "card (set (filter (Not \<circ> spec_blocked db_open 1 5 (Some 15)) [8, 8, 7])) = 1
   \<and> spec_blocked db_open 1 5 (Some 15) 7
   \<and> fst (createShiftAssignments (batch ''1'' [''8'', ''8'', ''7''] 5 (Some 15)) db_open)
       = Created 2 1 [''7''] []
   \<and> count_list (map user_id (shift_assignments
         (snd (createShiftAssignments (batch ''1'' [''8'', ''8'', ''7''] 5 (Some 15)) db_open)))) 8
       = 2"
  by code_simp

text \<open>
  C3, as the code has it. Take a batch request that passes validation, whose worker ids are
  written in the decimal form that \<^verbatim>\<open>toString\<close> gives, and in which the detector reports
  every requested worker. The planner writes nothing and answers with the error of a
  blocked batch, which carries the list of duplicates and the list of overlapping workers
  and has no \<open>created\<close> count.
\<close>

theorem batch_full_rejection:
  assumes ok: "request_ok body s sid ps role ubs"
    and ids: "body_user_ids body = Some (map toString ubs)"
    and all_blocked: "\<forall>n \<in> set ubs. reported s sid ps (body_endDate body) n"
  shows "createShiftAssignments body s =
       (ErrBlocked msg_all_blocked (duplicateUserIds s sid ubs)
          (overlappingUserIds s ubs ps (body_endDate body)), s)
     \<and> data_created (fst (createShiftAssignments body s)) = None
     \<and> set (duplicateUserIds s sid ubs) = toString ` {n \<in> set ubs. duplicate_on_shift s sid n}
     \<and> set (overlappingUserIds s ubs ps (body_endDate body)) =
         toString ` {n \<in> set ubs. reported_overlapping s ps (body_endDate body) n}"
proof -
  from all_blocked
  have e: "filter (\<lambda>n. \<not> reported s sid ps (body_endDate body) n) ubs = []"
    by (simp add: filter_empty_conv)
  have run: "createShiftAssignments body s =
       (ErrBlocked msg_all_blocked (duplicateUserIds s sid ubs)
          (overlappingUserIds s ubs ps (body_endDate body)), s)"
    unfolding create_run_canonical [OF ok ids] Let_def e by simp
  then have "data_created (fst (createShiftAssignments body s)) = None"
    by (simp add: data_created_def)
  with run dups_set ovl_set show ?thesis by blast
qed

text \<open>The request \<open>[7]\<close> for shift 1, on which worker 7 is active already.\<close>

theorem batch_full_rejection_witness:
  "request_ok (batch ''1'' [''7''] 5 (Some 15)) db_open 1 5 5 [7]
   \<and> body_user_ids (batch ''1'' [''7''] 5 (Some 15)) = Some (map toString [7])
   \<and> reported db_open 1 5 (Some 15) 7
   \<and> snd (createShiftAssignments (batch ''1'' [''7''] 5 (Some 15)) db_open) = db_open"
proof -
  let ?body = "batch ''1'' [''7''] 5 (Some 15)"
  have 1: "request_ok ?body db_open 1 5 5 [7]" by code_simp
  have 2: "body_user_ids ?body = Some (map toString [7])" by code_simp
  have 3: "\<forall>n \<in> set [7]. reported db_open 1 5 (body_endDate ?body) n" by code_simp
  have 4: "reported db_open 1 5 (Some 15) 7" by code_simp
  from batch_full_rejection [OF 1 2 3]
  have "snd (createShiftAssignments ?body db_open) = db_open" by simp
  with 1 2 4 show ?thesis by (simp only: simp_thms)
qed

text \<open>
  The claim gives the rejection the shape of the success result, with \<open>created = 0\<close>. The
  response of the code to a fully blocked batch has no such field.
\<close>

theorem batch_rejection_shape_counterexample:
  "spec_blocked db_open 1 5 (Some 15) 7
   \<and> fst (createShiftAssignments (batch ''1'' [''7''] 5 (Some 15)) db_open)
       = ErrBlocked msg_all_blocked [''7''] []
   \<and> data_created (fst (createShiftAssignments (batch ''1'' [''7''] 5 (Some 15)) db_open))
       \<noteq> Some 0"
  by code_simp

text \<open>
  The two statements above are about ids in the form \<^verbatim>\<open>toString\<close> gives. The filter of
  the planner compares the request's own string with the rendered ids of the rows found, so
  the id \<open>07\<close> of the duplicate worker 7 is not recognised as blocked and a second active
  assignment on shift 1 is created for that worker.
\<close>

lemma padded_id_passes_filter:
  "BigInt ''07'' = Some 7
   \<and> duplicate_on_shift db_open 1 7
   \<and> fst (createShiftAssignments (batch ''1'' [''07'', ''8''] 5 (Some 15)) db_open)
       = Created 2 0 [''7''] []
   \<and> count_list (map user_id (shift_assignments
         (snd (createShiftAssignments (batch ''1'' [''07'', ''8''] 5 (Some 15)) db_open)))) 7
       = 2"
  by code_simp

text \<open>
  C9. The planner does not deduplicate the requested list. Take a batch request that passes
  validation and a requested worker with no blocking assignment (no active assignment on the
  shift and none that overlaps the requested range). The request succeeds, and afterwards the
  worker holds as many active assignments on the shift as the list names them: one per
  occurrence.
\<close>

theorem batch_no_deduplication:
  assumes ok: "request_ok body s sid ps role ubs"
    and free: "\<not> spec_blocked s sid ps (body_endDate body) n"
    and req: "n \<in> set ubs"
  shows "data_created (fst (createShiftAssignments body s)) \<noteq> None
     \<and> length (filter (\<lambda>a. user_id a = n \<and> shiftId a = sid \<and> is_active a)
          (shift_assignments (snd (createShiftAssignments body s)))) = count_list ubs n"
proof -
  let ?pe = "body_endDate body"
  from ok obtain ids where ids: "body_user_ids body = Some ids"
    and m: "map BigInt ids = map Some ubs"
    by (auto simp: request_ok_def split: option.splits)
  from ok have valid: "\<not> end_before_start ?pe ps" by (simp add: request_ok_def)
  let ?dups = "duplicateUserIds s sid ubs"
  let ?ovl = "overlappingUserIds s ubs ps ?pe"
  let ?B = "set (?dups @ ?ovl)"
  let ?zs = "zip ids ubs"
  let ?ns = "map snd (filter (\<lambda>p. fst p \<notin> ?B) ?zs)"
  let ?Q = "\<lambda>a. user_id a = n \<and> shiftId a = sid \<and> is_active a"
  let ?new = "created_rows s sid ps ?pe role (body_notes body) ?ns"
  from m have len: "length ids = length ubs" by (rule map_eq_imp_length_eq)
  have key: "fst p \<notin> ?B" if "p \<in> set ?zs" "snd p = n" for p
  proof
    assume b: "fst p \<in> ?B"
    from that have "(fst p, n) \<in> set ?zs" by (metis prod.collapse)
    with m have "BigInt (fst p) = Some n" by (rule zip_parsed)
    then have "reported s sid ps ?pe n" using b by (rule blocked_mem_parsed)
    with valid free show False by (blast dest: reported_spec_blocked)
  qed
  have cnt: "count_list ?ns n = count_list ubs n"
  proof -
    have "count_list ?ns n = length (filter (\<lambda>p. snd p = n) (filter (\<lambda>p. fst p \<notin> ?B) ?zs))"
      by (simp only: length_filter_count)
    also have "\<dots> = length (filter (\<lambda>p. snd p = n) ?zs)"
      unfolding filter_filter
      by (rule arg_cong [where f = length], rule filter_cong [OF refl]) (auto dest: key)
    also have "\<dots> = count_list (map snd ?zs) n" by (simp only: length_filter_count)
    also have "\<dots> = count_list ubs n" using len by simp
    finally show ?thesis .
  qed
  from req len obtain w where w: "(w, n) \<in> set ?zs"
    by (metis in_set_impl_in_set_zip2)
  then have "w \<in> set ids" by (rule set_zip_leftD)
  moreover from w have "w \<notin> ?B" using key [of "(w, n)"] by simp
  ultimately have ne: "usersToAssign ?dups ?ovl ids \<noteq> []"
    by (auto simp: usersToAssign_def filter_empty_conv simp del: set_append)
  have run: "createShiftAssignments body s =
      (Created (length ?ns) (length ids - length (usersToAssign ?dups ?ovl ids)) ?dups ?ovl,
       s\<lparr>shift_assignments := shift_assignments s @ ?new,
         next_id := next_id s + int (length ?ns)\<rparr>)"
    unfolding create_run [OF ok ids] Let_def using ne by (simp only: if_False)
  have old: "filter ?Q (shift_assignments s) = []"
    using free by (auto simp: filter_empty_conv spec_blocked_def)
  have "filter ?Q ?new = filter (\<lambda>a. user_id a = n) ?new"
    by (rule filter_cong [OF refl]) (auto dest: created_rows_active)
  then have new: "length (filter ?Q ?new) = count_list ubs n"
    by (simp only: length_filter_count created_rows_user_ids cnt)
  show ?thesis
    unfolding run by (simp add: data_created_def old new del: set_append)
qed

text \<open>Worker 8, named twice in a request for shift 2, holds two active assignments on it.\<close>

theorem batch_no_deduplication_witness:
  "request_ok (batch ''2'' [''8'', ''8''] 5 (Some 15)) db_open 2 5 5 [8, 8]
   \<and> \<not> spec_blocked db_open 2 5 (Some 15) 8
   \<and> count_list [8, 8 :: int] 8 = 2
   \<and> length (filter (\<lambda>a. user_id a = 8 \<and> shiftId a = 2 \<and> is_active a)
        (shift_assignments
           (snd (createShiftAssignments (batch ''2'' [''8'', ''8''] 5 (Some 15)) db_open)))) = 2"
proof -
  let ?body = "batch ''2'' [''8'', ''8''] 5 (Some 15)"
  have 1: "request_ok ?body db_open 2 5 5 [8, 8]" by code_simp
  have 2: "\<not> spec_blocked db_open 2 5 (body_endDate ?body) 8" by code_simp
  have 3: "8 \<in> set [8, 8 :: int]" by simp
  have 4: "\<not> spec_blocked db_open 2 5 (Some 15) 8" by code_simp
  have 5: "count_list [8, 8] (8 :: int) = 2" by simp
  from batch_no_deduplication [OF 1 2 3]
  have "length (filter (\<lambda>a. user_id a = 8 \<and> shiftId a = 2 \<and> is_active a)
        (shift_assignments (snd (createShiftAssignments ?body db_open))))
        = count_list [8, 8 :: int] 8"
    by (rule conjunct2)
  then have "length (filter (\<lambda>a. user_id a = 8 \<and> shiftId a = 2 \<and> is_active a)
        (shift_assignments (snd (createShiftAssignments ?body db_open)))) = 2"
    by (simp only: 5)
  with 1 4 5 show ?thesis by (simp only: simp_thms)
qed

section \<open>Properties of the mutator\<close>

text \<open>
  C4. An update whose resulting range overlaps another active assignment of the same worker
  is meant to be rejected. Worker 7 holds the open-ended assignment 1 from day 10 on; the
  update of their assignment 2 to the range from day 5 to day 15 overlaps it in the sense of
  the specification, yet the overlap query of the update finds nothing and the row is
  rewritten.
\<close>

theorem update_misses_open_ended_row:
  "findAssignment db_two 2 = Some row_short
   \<and> user_id row_open = user_id row_short \<and> is_active row_open
   \<and> assignment_id row_open \<noteq> 2
   \<and> spec_overlaps (5, Some 15) (range_of row_open)
   \<and> updateShiftAssignment (Some 2) (reschedule (Some 5) (Some 15)) db_two
       = (Updated (row_short\<lparr>startDate := 5, endDate := Some 15\<rparr>),
          db_two\<lparr>shift_assignments :=
                   [row_open, row_short\<lparr>startDate := 5, endDate := Some 15\<rparr>]\<rparr>)"
  by code_simp

text \<open>
  What the update does guarantee: when some other active assignment of the worker satisfies
  the range condition of the query, the update is rejected with the 400 error of an
  overlapping shift and the store is untouched. For stored and resulting ranges that both
  have an end date the range condition is the overlap of the specification.
\<close>

lemma update_rejected_on_reported_overlap:
  assumes found: "findAssignment s i = Some a"
    and valid: "\<not> end_before_start (resulting_end body a) (resulting_start body a)"
    and b: "b \<in> set (shift_assignments s)" "assignment_id b \<noteq> i" "user_id b = user_id a"
      "is_active b" "overlap_where (resulting_start body a) (resulting_end body a) b"
  shows "updateShiftAssignment (Some i) body s = (Err 400 msg_overlapping, s)"
proof -
  from b have "findOverlapping s i (user_id a) (resulting_start body a) (resulting_end body a)
               \<noteq> None"
    unfolding findOverlapping_def find_None_iff is_active_def by blast
  with valid show ?thesis by (simp add: update_run [OF found])
qed

lemma update_rejected_on_bounded_overlap:
  assumes found: "findAssignment s i = Some a"
    and valid: "\<not> end_before_start (resulting_end body a) (resulting_start body a)"
    and b: "b \<in> set (shift_assignments s)" "assignment_id b \<noteq> i" "user_id b = user_id a"
      "is_active b"
    and bounded: "resulting_end body a = Some c" "endDate b = Some e"
    and overlap: "spec_overlaps (resulting_start body a, resulting_end body a) (range_of b)"
  shows "updateShiftAssignment (Some i) body s = (Err 400 msg_overlapping, s)"
proof -
  from bounded overlap
  have "overlap_where (resulting_start body a) (resulting_end body a) b"
    unfolding overlap_where_def
    by (subst range_where_bounded [where c = c and e = e]) (simp_all add: range_of_def)
  with found valid b show ?thesis by (rule update_rejected_on_reported_overlap)
qed

text \<open>
  C7. On an update of an existing assignment that is not deleted, the dates that are
  validated and written are the request's where it carries them and the stored ones
  otherwise; the update is rejected with the 400 error of an end date before the start date,
  the store untouched, whenever the resulting end is earlier than the resulting start; and
  whenever the update is applied, every field the request omits keeps its stored value in
  the row written, as do the id, the shift, the worker and the deletion mark.
\<close>

theorem update_defaults_and_range_check:
  assumes found: "findAssignment s i = Some a"
  shows "(end_before_start (resulting_end body a) (resulting_start body a) \<longrightarrow>
            updateShiftAssignment (Some i) body s = (Err 400 msg_end_before_start, s))
     \<and> (upd_startDate body = None \<longrightarrow> resulting_start body a = startDate a)
     \<and> (upd_endDate body = None \<longrightarrow> resulting_end body a = endDate a)
     \<and> (\<forall>r s'. updateShiftAssignment (Some i) body s = (Updated r, s') \<longrightarrow>
            s' = update_row s i
                   (update_data body (resulting_start body a) (resulting_end body a) a)
            \<and> findAssignment s' i = Some r
            \<and> (upd_startDate body = None \<longrightarrow> startDate r = startDate a)
            \<and> (upd_endDate body = None \<longrightarrow> endDate r = endDate a)
            \<and> (upd_status body = None \<longrightarrow> status r = status a)
            \<and> (upd_notes body = None \<longrightarrow> assignment_notes r = assignment_notes a)
            \<and> (upd_role_id body = None \<longrightarrow> role_id r = role_id a)
            \<and> assignment_id r = assignment_id a \<and> shiftId r = shiftId a
            \<and> user_id r = user_id a \<and> deleted_at r = deleted_at a)"
proof -
  let ?f = "update_data body (resulting_start body a) (resulting_end body a) a"
  note run = update_run [OF found, of body]
  have 1: "end_before_start (resulting_end body a) (resulting_start body a) \<longrightarrow>
            updateShiftAssignment (Some i) body s = (Err 400 msg_end_before_start, s)"
    by (simp add: run)
  have 2: "(upd_startDate body = None \<longrightarrow> resulting_start body a = startDate a)
     \<and> (upd_endDate body = None \<longrightarrow> resulting_end body a = endDate a)"
    by (simp add: resulting_start_def resulting_end_def)
  have fa: "findAssignment (update_row s i ?f) i = Some (?f a)"
    by (rule findAssignment_update_row [OF _ _ found]) (simp_all add: update_data_def)
  have 3: "r = ?f a \<and> s' = update_row s i ?f"
    if "updateShiftAssignment (Some i) body s = (Updated r, s')" for r s'
    using that unfolding run by (simp split: if_splits)
  have 4: "s' = update_row s i ?f
        \<and> findAssignment s' i = Some r
        \<and> (upd_startDate body = None \<longrightarrow> startDate r = startDate a)
        \<and> (upd_endDate body = None \<longrightarrow> endDate r = endDate a)
        \<and> (upd_status body = None \<longrightarrow> status r = status a)
        \<and> (upd_notes body = None \<longrightarrow> assignment_notes r = assignment_notes a)
        \<and> (upd_role_id body = None \<longrightarrow> role_id r = role_id a)
        \<and> assignment_id r = assignment_id a \<and> shiftId r = shiftId a
        \<and> user_id r = user_id a \<and> deleted_at r = deleted_at a"
    if u: "updateShiftAssignment (Some i) body s = (Updated r, s')" for r s'
  proof -
    from 3 [OF u] have r: "r = ?f a" and s': "s' = update_row s i ?f" by simp_all
    show ?thesis
      unfolding r s'
      using fa update_data_fields [where body = body and a = a and b = a
          and ps = "resulting_start body a" and pe = "resulting_end body a"]
      by blast
  qed
  from 1 2 4 show ?thesis by blast
qed

text \<open>
  Assignment 2 runs from day 1 to day 3. A request with only the end date 0 is rejected
  against the stored start; one with only the end date 4 is applied and keeps the start.
\<close>

theorem update_defaults_and_range_check_witness:
  "findAssignment db_two 2 = Some row_short
   \<and> upd_startDate (reschedule None (Some 0)) = None
   \<and> end_before_start (Some 0) (startDate row_short)
   \<and> updateShiftAssignment (Some 2) (reschedule None (Some 0)) db_two
       = (Err 400 msg_end_before_start, db_two)
   \<and> fst (updateShiftAssignment (Some 2) (reschedule None (Some 4)) db_two)
       = Updated (row_short\<lparr>endDate := Some 4\<rparr>)
   \<and> findAssignment (snd (updateShiftAssignment (Some 2) (reschedule None (Some 4)) db_two)) 2
       = Some (row_short\<lparr>endDate := Some 4\<rparr>)"
proof -
  have 1: "findAssignment db_two 2 = Some row_short" by code_simp
  have 2: "upd_startDate (reschedule None (Some 0)) = None" by code_simp
  have 3: "end_before_start (Some 0) (startDate row_short)" by code_simp
  have 4: "end_before_start (resulting_end (reschedule None (Some 0)) row_short)
             (resulting_start (reschedule None (Some 0)) row_short)" by code_simp
  from update_defaults_and_range_check [OF 1, of "reschedule None (Some 0)"] 4
  have 5: "updateShiftAssignment (Some 2) (reschedule None (Some 0)) db_two
          = (Err 400 msg_end_before_start, db_two)" by blast
  have 6: "fst (updateShiftAssignment (Some 2) (reschedule None (Some 4)) db_two)
       = Updated (row_short\<lparr>endDate := Some 4\<rparr>)" by code_simp
  then have "updateShiftAssignment (Some 2) (reschedule None (Some 4)) db_two
       = (Updated (row_short\<lparr>endDate := Some 4\<rparr>),
          snd (updateShiftAssignment (Some 2) (reschedule None (Some 4)) db_two))"
    by (simp only: prod_eq_iff fst_conv snd_conv simp_thms)
  with update_defaults_and_range_check [OF 1, of "reschedule None (Some 4)"]
  have 7: "findAssignment (snd (updateShiftAssignment (Some 2) (reschedule None (Some 4))
              db_two)) 2 = Some (row_short\<lparr>endDate := Some 4\<rparr>)"
    by blast
  from 1 2 3 5 6 7 show ?thesis by (simp only: simp_thms)
qed

section \<open>Properties of the status toggle\<close>

text \<open>
  C8. For an existing assignment that is not deleted and whose status is active or
  inactive, two toggles in succession return the assignment to its original status: the
  first answers with the row under the flipped status, the second with the original row,
  which is then what the store holds (and the whole store is as before when ids are
  unique). A toggle succeeds without any check of the range, leaves the rows of other ids
  and the rest of the store alone, and changes no field but the status.
\<close>

theorem toggle_twice_restores:
  assumes found: "findAssignment s i = Some a"
    and st: "status a = ''active'' \<or> status a = ''inactive''"
  shows "fst (toggleShiftAssignmentStatus (Some i) s) =
           Updated (a\<lparr>status := (if status a = ''active'' then ''inactive'' else ''active'')\<rparr>)
     \<and> fst (toggleShiftAssignmentStatus (Some i) (snd (toggleShiftAssignmentStatus (Some i) s)))
         = Updated a
     \<and> findAssignment
         (snd (toggleShiftAssignmentStatus (Some i) (snd (toggleShiftAssignmentStatus (Some i) s))))
         i = Some a
     \<and> map (\<lambda>b. b\<lparr>status := []\<rparr>) (shift_assignments (snd (toggleShiftAssignmentStatus (Some i) s)))
         = map (\<lambda>b. b\<lparr>status := []\<rparr>) (shift_assignments s)
     \<and> filter (\<lambda>b. assignment_id b \<noteq> i)
          (shift_assignments (snd (toggleShiftAssignmentStatus (Some i) s)))
         = filter (\<lambda>b. assignment_id b \<noteq> i) (shift_assignments s)
     \<and> shifts (snd (toggleShiftAssignmentStatus (Some i) s)) = shifts s
     \<and> next_id (snd (toggleShiftAssignmentStatus (Some i) s)) = next_id s
     \<and> (distinct (map assignment_id (shift_assignments s)) \<longrightarrow>
          snd (toggleShiftAssignmentStatus (Some i) (snd (toggleShiftAssignmentStatus (Some i) s)))
          = s)"
proof -
  let ?n = "if status a = ''active'' then ''inactive'' else ''active''"
  let ?s1 = "update_row s i (\<lambda>b. b\<lparr>status := ?n\<rparr>)"
  let ?a1 = "a\<lparr>status := ?n\<rparr>"
  have t1: "toggleShiftAssignmentStatus (Some i) s = (Updated ?a1, ?s1)"
    by (rule toggle_run [OF found])
  have f1: "findAssignment ?s1 i = Some ?a1"
    by (rule findAssignment_update_row [OF _ _ found]) simp_all
  have flip2: "(if status ?a1 = ''active'' then ''inactive'' else ''active'') = status a"
    using st by auto
  let ?s2 = "update_row ?s1 i (\<lambda>b. b\<lparr>status := status a\<rparr>)"
  have t2: "toggleShiftAssignmentStatus (Some i) ?s1 = (Updated a, ?s2)"
    unfolding toggle_run [OF f1] flip2 by simp
  have f2: "findAssignment ?s2 i = Some a"
    using findAssignment_update_row [OF _ _ f1, of "\<lambda>b. b\<lparr>status := status a\<rparr>"] by simp
  have only_status: "map (\<lambda>b. b\<lparr>status := []\<rparr>) (shift_assignments ?s1)
        = map (\<lambda>b. b\<lparr>status := []\<rparr>) (shift_assignments s)"
    by (simp add: update_row_def comp_def)
  have others: "filter (\<lambda>b. assignment_id b \<noteq> i) (shift_assignments ?s1)
        = filter (\<lambda>b. assignment_id b \<noteq> i) (shift_assignments s)"
    by (rule update_row_other_rows) simp
  have rest: "shifts ?s1 = shifts s" "next_id ?s1 = next_id s"
    by (simp_all add: update_row_def)
  have same: "?s2 = s" if d: "distinct (map assignment_id (shift_assignments s))"
  proof -
    have "map (\<lambda>b. if assignment_id b = i then b\<lparr>status := status a\<rparr> else b)
            (shift_assignments s) = shift_assignments s"
    proof (rule map_idI)
      fix b assume b: "b \<in> set (shift_assignments s)"
      show "(if assignment_id b = i then b\<lparr>status := status a\<rparr> else b) = b"
      proof (cases "assignment_id b = i")
        case True
        with d found b have "b = a" by (rule unique_row)
        then show ?thesis by simp
      next
        case False
        then show ?thesis by simp
      qed
    qed
    then show ?thesis by (simp add: update_row_def comp_def if_distrib cong: if_cong)
  qed
  show ?thesis
    unfolding t1 snd_conv fst_conv t2
    using f2 only_status others rest same by blast
qed

text \<open>Assignment 1 of the sample store is active; two toggles give the store back.\<close>

theorem toggle_twice_restores_witness:
  "findAssignment db_open 1 = Some row_open
   \<and> status row_open = ''active''
   \<and> distinct (map assignment_id (shift_assignments db_open))
   \<and> fst (toggleShiftAssignmentStatus (Some 1) db_open)
       = Updated (row_open\<lparr>status := ''inactive''\<rparr>)
   \<and> snd (toggleShiftAssignmentStatus (Some 1)
            (snd (toggleShiftAssignmentStatus (Some 1) db_open))) = db_open"
proof -
  have 1: "findAssignment db_open 1 = Some row_open" by code_simp
  have 2: "status row_open = ''active''" by code_simp
  have 3: "distinct (map assignment_id (shift_assignments db_open))" by code_simp
  from 2 have 4: "status row_open = ''active'' \<or> status row_open = ''inactive''" by simp
  note t = toggle_twice_restores [OF 1 4]
  from t have "fst (toggleShiftAssignmentStatus (Some 1) db_open)
       = Updated (row_open\<lparr>status :=
           (if status row_open = ''active'' then ''inactive'' else ''active'')\<rparr>)"
    by (rule conjunct1)
  then have 5: "fst (toggleShiftAssignmentStatus (Some 1) db_open)
       = Updated (row_open\<lparr>status := ''inactive''\<rparr>)"
    by (simp only: 2 refl if_True)
  from t 3 have 6: "snd (toggleShiftAssignmentStatus (Some 1)
            (snd (toggleShiftAssignmentStatus (Some 1) db_open))) = db_open"
    by blast
  from 1 2 3 5 6 show ?thesis by (simp only: simp_thms)
qed

section \<open>Properties of the soft delete\<close>

lemma delete_run:
  "findAssignment s i = Some a \<Longrightarrow>
   deleteShiftAssignment now (Some i) s = (Deleted, soft_delete_row now i s)"
  by (simp add: deleteShiftAssignment_def)

lemma soft_delete_row_rows:
  "shift_assignments (soft_delete_row now i s) =
     map (\<lambda>b. if assignment_id b = i then b\<lparr>deleted_at := Some now, status := ''inactive''\<rparr>
               else b) (shift_assignments s)"
  by (simp add: soft_delete_row_def update_row_def)

lemma soft_delete_row_rest:
  "shifts (soft_delete_row now i s) = shifts s" "next_id (soft_delete_row now i s) = next_id s"
  by (simp_all add: soft_delete_row_def update_row_def)

lemma findAssignment_after_delete: "findAssignment (soft_delete_row now i s) i = None"
proof -
  have "find (\<lambda>b. assignment_id b = i \<and> deleted_at b = None)
          (map (\<lambda>b. if assignment_id b = i
                     then b\<lparr>deleted_at := Some now, status := ''inactive''\<rparr> else b) xs)
        = None" for xs
    by (induction xs) simp_all
  then show ?thesis by (simp only: findAssignment_def soft_delete_row_rows)
qed

lemma filter_map_dropped:
  assumes "\<And>x. Q x \<Longrightarrow> g x = x" "\<And>x. \<not> Q x \<Longrightarrow> \<not> P (g x)"
  shows "filter P (map g xs) = filter P (filter Q xs)"
  by (induction xs) (auto simp: assms)

lemma find_map_dropped:
  assumes "\<And>x. Q x \<Longrightarrow> g x = x" "\<And>x. \<not> Q x \<Longrightarrow> \<not> P (g x)"
  shows "find P (map g xs) = find P (filter Q xs)"
  by (induction xs) (auto simp: assms)

lemma filter_after_delete:
  assumes "\<And>b. P b \<Longrightarrow> deleted_at b = None"
  shows "filter P (map (\<lambda>b. if assignment_id b = i
                               then b\<lparr>deleted_at := Some now, status := ''inactive''\<rparr>
                               else b) xs)
         = filter P (filter (\<lambda>b. assignment_id b \<noteq> i) xs)"
  by (rule filter_map_dropped) (auto dest: assms)

lemma find_after_delete:
  assumes "\<And>b. P b \<Longrightarrow> deleted_at b = None"
  shows "find P (map (\<lambda>b. if assignment_id b = i
                             then b\<lparr>deleted_at := Some now, status := ''inactive''\<rparr>
                             else b) xs)
         = find P (filter (\<lambda>b. assignment_id b \<noteq> i) xs)"
  by (rule find_map_dropped) (auto dest: assms)

lemma without_rows:
  "shift_assignments (without i s) = filter (\<lambda>b. assignment_id b \<noteq> i) (shift_assignments s)"
  by (simp add: without_def)

lemma existingSameShift_after_delete:
  "existingSameShift (soft_delete_row now i s) sid ubs = existingSameShift (without i s) sid ubs"
  unfolding existingSameShift_def soft_delete_row_rows without_rows
  by (rule filter_after_delete) simp

lemma overlappingAssignments_after_delete:
  "overlappingAssignments (soft_delete_row now i s) ubs ps pe =
     overlappingAssignments (without i s) ubs ps pe"
  unfolding overlappingAssignments_def soft_delete_row_rows without_rows
  by (rule filter_after_delete) simp

lemma findOverlapping_after_delete:
  "findOverlapping (soft_delete_row now i s) j uid ps pe =
     findOverlapping (without i s) j uid ps pe"
  unfolding findOverlapping_def soft_delete_row_rows without_rows
  by (rule find_after_delete) simp

lemma request_ok_shifts:
  "shifts s' = shifts s \<Longrightarrow> request_ok body s' sid ps role ubs = request_ok body s sid ps role ubs"
  by (auto simp: request_ok_def findShift_def split: option.splits)

lemma reported_after_delete:
  assumes r: "reported (soft_delete_row now i s) sid ps pe n"
  shows "\<exists>b \<in> set (shift_assignments s). assignment_id b \<noteq> i \<and> user_id b = n \<and> is_active b
            \<and> (shiftId b = sid \<or> overlap_where ps pe b)"
proof -
  from r obtain c where c: "c \<in> set (shift_assignments (soft_delete_row now i s))"
    "user_id c = n" "is_active c" "shiftId c = sid \<or> overlap_where ps pe c"
    unfolding reported_def duplicate_on_shift_def reported_overlapping_def by blast
  from c(1) have "c \<in> (\<lambda>b. if assignment_id b = i
                          then b\<lparr>deleted_at := Some now, status := ''inactive''\<rparr> else b)
                    ` set (shift_assignments s)"
    by (simp only: soft_delete_row_rows set_map)
  then obtain b where b: "b \<in> set (shift_assignments s)"
    "c = (if assignment_id b = i then b\<lparr>deleted_at := Some now, status := ''inactive''\<rparr> else b)"
    by (rule imageE) blast
  have ne: "assignment_id b \<noteq> i"
  proof
    assume "assignment_id b = i"
    with b(2) have "deleted_at c = Some now" by simp
    with c(3) show False by (simp add: is_active_def)
  qed
  with b(2) have cb: "c = b" by simp
  from c(2-4) have "user_id b = n \<and> is_active b \<and> (shiftId b = sid \<or> overlap_where ps pe b)"
    unfolding cb by (intro conjI)
  with ne have "assignment_id b \<noteq> i \<and> user_id b = n \<and> is_active b
      \<and> (shiftId b = sid \<or> overlap_where ps pe b)" by (intro conjI) simp_all
  with b(1) show ?thesis by (rule rev_bexI)
qed


lemma not_reported_after_delete:
  assumes valid: "\<not> end_before_start pe ps"
    and only: "\<forall>b \<in> set (shift_assignments s).
        user_id b = n \<and> is_active b
          \<and> (shiftId b = sid \<or> spec_overlaps (ps, pe) (range_of b))
        \<longrightarrow> assignment_id b = i"
  shows "\<not> reported (soft_delete_row now i s) sid ps pe n"
proof
  assume "reported (soft_delete_row now i s) sid ps pe n"
  then obtain b where b: "b \<in> set (shift_assignments s)" "assignment_id b \<noteq> i"
    "user_id b = n" "is_active b" "shiftId b = sid \<or> overlap_where ps pe b"
    using reported_after_delete by blast
  from b(5) valid have "shiftId b = sid \<or> spec_overlaps (ps, pe) (range_of b)"
    by (blast dest: overlap_where_sound)
  with only b(1,3,4) have "assignment_id b = i" by blast
  with b(2) show False by contradiction
qed

lemma assignable_when_not_reported:
  assumes ok: "request_ok body s sid ps role [n]"
    and ids: "body_user_ids body = Some [toString n]"
    and nr: "\<not> reported s sid ps (body_endDate body) n"
  shows "createShiftAssignments body s =
     (Created 1 0 [] [],
      s\<lparr>shift_assignments :=
           shift_assignments s @
           created_rows s sid ps (body_endDate body) role (body_notes body) [n],
         next_id := next_id s + 1\<rparr>)"
proof -
  from ids have ids': "body_user_ids body = Some (map toString [n])" by simp
  from nr have "set (duplicateUserIds s sid [n]) = {}"
    unfolding dups_set by (auto simp: reported_def)
  then have d: "duplicateUserIds s sid [n] = []" by simp
  from nr have "set (overlappingUserIds s [n] ps (body_endDate body)) = {}"
    unfolding ovl_set by (auto simp: reported_def)
  then have v: "overlappingUserIds s [n] ps (body_endDate body) = []" by simp
  show ?thesis
    unfolding create_run_canonical [OF ok ids'] Let_def d v using nr by simp
qed

lemma rejected_when_reported:
  assumes ok: "request_ok body s sid ps role [n]"
    and ids: "body_user_ids body = Some [toString n]"
    and r: "reported s sid ps (body_endDate body) n"
  shows "createShiftAssignments body s =
     (ErrBlocked msg_all_blocked (duplicateUserIds s sid [n])
        (overlappingUserIds s [n] ps (body_endDate body)), s)"
proof -
  from ids have ids': "body_user_ids body = Some (map toString [n])" by simp
  show ?thesis
    unfolding create_run_canonical [OF ok ids'] Let_def using r by simp
qed

text \<open>
  C6. The soft delete of an existing assignment that is not deleted sets \<open>deleted_at\<close> and
  forces the status inactive on the row of that id and touches no other row; a second delete
  of the same id fails with the 404 error of an assignment not found, as do a toggle and an
  update, so the row stays deleted; and the three conflict
  queries (the duplicate query and the overlap query of the planner, the overlap query of the
  update) answer on the store after the delete what they would answer had the row never been
  there. So a request for a worker, over a range for which every blocking assignment of the
  worker (active, and on the shift or overlapping the range) is the deleted one, is assigned
  after the delete, while it was rejected before if the detector reported the worker.
\<close>

theorem soft_delete_excludes:
  assumes found: "findAssignment s i = Some a"
  shows "deleteShiftAssignment now (Some i) s = (Deleted, soft_delete_row now i s)
     \<and> a\<lparr>deleted_at := Some now, status := ''inactive''\<rparr>
         \<in> set (shift_assignments (soft_delete_row now i s))
     \<and> (\<forall>b \<in> set (shift_assignments (soft_delete_row now i s)).
          assignment_id b = i \<longrightarrow> deleted_at b = Some now \<and> status b = ''inactive'')
     \<and> filter (\<lambda>b. assignment_id b \<noteq> i) (shift_assignments (soft_delete_row now i s))
         = filter (\<lambda>b. assignment_id b \<noteq> i) (shift_assignments s)
     \<and> deleteShiftAssignment later (Some i) (soft_delete_row now i s)
         = (Err 404 msg_assignment_not_found, soft_delete_row now i s)
     \<and> toggleShiftAssignmentStatus (Some i) (soft_delete_row now i s)
         = (Err 404 msg_assignment_not_found, soft_delete_row now i s)
     \<and> updateShiftAssignment (Some i) upd (soft_delete_row now i s)
         = (Err 404 msg_assignment_not_found, soft_delete_row now i s)
     \<and> existingSameShift (soft_delete_row now i s) sid ubs
         = existingSameShift (without i s) sid ubs
     \<and> overlappingAssignments (soft_delete_row now i s) ubs ps pe
         = overlappingAssignments (without i s) ubs ps pe
     \<and> findOverlapping (soft_delete_row now i s) j uid ps pe
         = findOverlapping (without i s) j uid ps pe
     \<and> (request_ok body s sid ps role [n] \<and> body_user_ids body = Some [toString n]
         \<and> (\<forall>b \<in> set (shift_assignments s).
               user_id b = n \<and> is_active b
                 \<and> (shiftId b = sid \<or> spec_overlaps (ps, body_endDate body) (range_of b))
               \<longrightarrow> assignment_id b = i)
        \<longrightarrow> createShiftAssignments body (soft_delete_row now i s)
              = (Created 1 0 [] [],
                 (soft_delete_row now i s)
                   \<lparr>shift_assignments :=
                      shift_assignments (soft_delete_row now i s) @
                      created_rows (soft_delete_row now i s) sid ps (body_endDate body) role
                        (body_notes body) [n],
                    next_id := next_id (soft_delete_row now i s) + 1\<rparr>)
            \<and> (reported s sid ps (body_endDate body) n \<longrightarrow>
                 createShiftAssignments body s
                 = (ErrBlocked msg_all_blocked (duplicateUserIds s sid [n])
                      (overlappingUserIds s [n] ps (body_endDate body)), s)))"
proof -
  let ?s1 = "soft_delete_row now i s"
  from found have a: "a \<in> set (shift_assignments s)" "assignment_id a = i"
    by (simp_all add: findAssignment_props)
  have 1: "deleteShiftAssignment now (Some i) s = (Deleted, ?s1)"
    by (rule delete_run [OF found])
  have 2: "a\<lparr>deleted_at := Some now, status := ''inactive''\<rparr> \<in> set (shift_assignments ?s1)"
  proof -
    have "(\<lambda>b. if assignment_id b = i then b\<lparr>deleted_at := Some now, status := ''inactive''\<rparr>
               else b) a \<in> set (shift_assignments ?s1)"
      unfolding soft_delete_row_rows set_map using a(1) by (rule imageI)
    with a(2) show ?thesis by simp
  qed
  have 3: "\<forall>b \<in> set (shift_assignments ?s1).
          assignment_id b = i \<longrightarrow> deleted_at b = Some now \<and> status b = ''inactive''"
  proof
    fix c assume "c \<in> set (shift_assignments ?s1)"
    then have "c \<in> (\<lambda>b. if assignment_id b = i
                          then b\<lparr>deleted_at := Some now, status := ''inactive''\<rparr> else b)
                    ` set (shift_assignments s)"
      by (simp only: soft_delete_row_rows set_map)
    then obtain b where
      "c = (if assignment_id b = i then b\<lparr>deleted_at := Some now, status := ''inactive''\<rparr>
            else b)"
      by (rule imageE)
    then show "assignment_id c = i \<longrightarrow> deleted_at c = Some now \<and> status c = ''inactive''"
      by (cases "assignment_id b = i") simp_all
  qed
  have 4: "filter (\<lambda>b. assignment_id b \<noteq> i) (shift_assignments ?s1)
         = filter (\<lambda>b. assignment_id b \<noteq> i) (shift_assignments s)"
    unfolding soft_delete_row_def by (rule update_row_other_rows) simp
  have 5: "deleteShiftAssignment later (Some i) ?s1 = (Err 404 msg_assignment_not_found, ?s1)"
    by (simp add: deleteShiftAssignment_def findAssignment_after_delete)
  have 6: "toggleShiftAssignmentStatus (Some i) ?s1 = (Err 404 msg_assignment_not_found, ?s1)"
    by (simp add: toggleShiftAssignmentStatus_def findAssignment_after_delete)
  have 7: "updateShiftAssignment (Some i) upd ?s1 = (Err 404 msg_assignment_not_found, ?s1)"
    by (simp add: updateShiftAssignment_def findAssignment_after_delete)
  have 9: "createShiftAssignments body ?s1
              = (Created 1 0 [] [],
                 ?s1\<lparr>shift_assignments :=
                      shift_assignments ?s1 @
                      created_rows ?s1 sid ps (body_endDate body) role (body_notes body) [n],
                    next_id := next_id ?s1 + 1\<rparr>)
            \<and> (reported s sid ps (body_endDate body) n \<longrightarrow>
                 createShiftAssignments body s
                 = (ErrBlocked msg_all_blocked (duplicateUserIds s sid [n])
                      (overlappingUserIds s [n] ps (body_endDate body)), s))"
    if ok: "request_ok body s sid ps role [n]" and ids: "body_user_ids body = Some [toString n]"
      and only: "\<forall>b \<in> set (shift_assignments s).
               user_id b = n \<and> is_active b
                 \<and> (shiftId b = sid \<or> spec_overlaps (ps, body_endDate body) (range_of b))
               \<longrightarrow> assignment_id b = i"
  proof -
    from ok have valid: "\<not> end_before_start (body_endDate body) ps"
      by (simp add: request_ok_def)
    from ok have ok1: "request_ok body ?s1 sid ps role [n]"
      by (simp only: request_ok_shifts [OF soft_delete_row_rest(1)])
    have nr: "\<not> reported ?s1 sid ps (body_endDate body) n"
      using valid only by (rule not_reported_after_delete)
    from assignable_when_not_reported [OF ok1 ids nr] rejected_when_reported [OF ok ids]
    show ?thesis by blast
  qed
  from 1 2 3 4 5 6 7 existingSameShift_after_delete overlappingAssignments_after_delete
    findOverlapping_after_delete 9
  show ?thesis by (intro conjI impI; (elim conjE)?; blast?)
qed

text \<open>
  Worker 7 is blocked on shift 1 by assignment 1 alone: the request is rejected before the
  delete and assigned after it, and a second delete finds nothing.
\<close>

theorem soft_delete_excludes_witness:
  "findAssignment db_open 1 = Some row_open
   \<and> request_ok (batch ''1'' [''7''] 5 (Some 15)) db_open 1 5 5 [7]
   \<and> reported db_open 1 5 (Some 15) 7
   \<and> fst (deleteShiftAssignment 100 (Some 1) db_open) = Deleted
   \<and> fst (deleteShiftAssignment 200 (Some 1) (soft_delete_row 100 1 db_open))
       = Err 404 msg_assignment_not_found
   \<and> fst (createShiftAssignments (batch ''1'' [''7''] 5 (Some 15)) db_open)
       = ErrBlocked msg_all_blocked [''7''] []
   \<and> fst (createShiftAssignments (batch ''1'' [''7''] 5 (Some 15))
            (soft_delete_row 100 1 db_open)) = Created 1 0 [] []"
proof -
  let ?body = "batch ''1'' [''7''] 5 (Some 15)"
  have 1: "findAssignment db_open 1 = Some row_open" by code_simp
  have 2: "request_ok ?body db_open 1 5 5 [7]" by code_simp
  have 3: "body_user_ids ?body = Some [toString 7]" by code_simp
  have 4: "\<forall>b \<in> set (shift_assignments db_open).
             user_id b = 7 \<and> is_active b
               \<and> (shiftId b = 1 \<or> spec_overlaps (5, body_endDate ?body) (range_of b))
             \<longrightarrow> assignment_id b = 1" by code_simp
  have 5: "reported db_open 1 5 (body_endDate ?body) 7" by code_simp
  have 6: "reported db_open 1 5 (Some 15) 7" by code_simp
  have 7: "duplicateUserIds db_open 1 [7] = [''7'']" by code_simp
  have 8: "overlappingUserIds db_open [7] 5 (body_endDate ?body) = []" by code_simp
  note t = soft_delete_excludes [where now = 100 and later = 200 and body = ?body
      and sid = 1 and ps = 5 and role = 5 and n = 7, OF 1]
  from t have a: "fst (deleteShiftAssignment 100 (Some 1) db_open) = Deleted" by simp
  from t have b: "fst (deleteShiftAssignment 200 (Some 1) (soft_delete_row 100 1 db_open))
       = Err 404 msg_assignment_not_found" by simp
  from t 2 3 4 5
  have "fst (createShiftAssignments ?body (soft_delete_row 100 1 db_open)) = Created 1 0 [] []"
    and "fst (createShiftAssignments ?body db_open)
       = ErrBlocked msg_all_blocked (duplicateUserIds db_open 1 [7])
           (overlappingUserIds db_open [7] 5 (body_endDate ?body))"
    by simp_all
  with 1 2 6 a b show ?thesis by (simp only: 7 8 simp_thms)
qed

end
